theory Spec2Isabelle
  imports Complex_Main
begin

section \<open>JavaScript values\<close>

text \<open>
  The route service reads the provider's response as \<^verbatim>\<open>any\<close>: every field may be
  missing or of any JSON type. A value of the model is therefore a JSON value, or
  \<^verbatim>\<open>undefined\<close>, which a read of a missing property gives. An object is the list of
  its own properties, read with \<open>map_of\<close>. Numbers are the reals that the doubles
  denote; the route code copies them and compares them with \<open>0\<close>, nothing else.
\<close>

datatype json =
    JUndefined
  | JNull
  | JBool bool
  | JNum real
  | JStr string
  | JArr "json list"
  | JObj "(string \<times> json) list"

text \<open>What a \<^verbatim>\<open>throw\<close> carries. Messages are only logged and are left out.\<close>

datatype js_error = TypeError | SyntaxError | NetworkError | ApiError

text \<open>
  The outcome of \<^verbatim>\<open>await fetch(url)\<close> followed by \<^verbatim>\<open>response.json()\<close>: the
  promise rejects, or a response arrives with its \<^verbatim>\<open>ok\<close> flag, its status and a
  body; the body is \<open>None\<close> when it is not JSON, so that \<^verbatim>\<open>response.json()\<close> throws.
\<close>

datatype 'b http_outcome =
    Rejected
  | Responded bool nat "'b option"

fun nullish :: "json \<Rightarrow> bool" where
  "nullish JUndefined = True"
| "nullish JNull = True"
| "nullish _ = False"

text \<open>JavaScript's \<^verbatim>\<open>ToBoolean\<close> on the values JSON has.\<close>

fun truthy :: "json \<Rightarrow> bool" where
  "truthy JUndefined = False"
| "truthy JNull = False"
| "truthy (JBool b) = b"
| "truthy (JNum x) = (x \<noteq> 0)"
| "truthy (JStr s) = (s \<noteq> [])"
| "truthy (JArr xs) = True"
| "truthy (JObj kvs) = True"

text \<open>
  \<open>readProp v p\<close> is \<^verbatim>\<open>v.p\<close> for a receiver that is neither \<^verbatim>\<open>undefined\<close> nor
  \<^verbatim>\<open>null\<close>. The code reads the names of the provider's fields, \<^verbatim>\<open>length\<close> and the
  index \<^verbatim>\<open>0\<close>; on an array or a string every other name it reads is absent.
\<close>

fun readProp :: "json \<Rightarrow> string \<Rightarrow> json" where
  "readProp (JObj kvs) p = (case map_of kvs p of None \<Rightarrow> JUndefined | Some v \<Rightarrow> v)"
| "readProp (JArr xs) p =
     (if p = ''length'' then JNum (of_nat (length xs))
      else if p = ''0'' then (case xs of [] \<Rightarrow> JUndefined | x # _ \<Rightarrow> x)
      else JUndefined)"
| "readProp (JStr s) p =
     (if p = ''length'' then JNum (of_nat (length s))
      else if p = ''0'' then (case s of [] \<Rightarrow> JUndefined | c # _ \<Rightarrow> JStr [c])
      else JUndefined)"
| "readProp _ p = JUndefined"

text \<open>
  A read on \<^verbatim>\<open>undefined\<close> or \<^verbatim>\<open>null\<close> throws a \<^verbatim>\<open>TypeError\<close>. The reads of
  one receiver throw together or not at all, so each function below tests its receiver
  with \<open>nullish\<close> once and then reads it with \<open>readProp\<close>.
\<close>

text \<open>
  \<^verbatim>\<open>v.forEach(f)\<close> and \<^verbatim>\<open>v.map(f)\<close> find the method on an array only; on every
  other value the call throws a \<^verbatim>\<open>TypeError\<close>.
\<close>

fun arrayOf :: "json \<Rightarrow> js_error + json list" where
  "arrayOf (JArr xs) = Inr xs"
| "arrayOf _ = Inl TypeError"

text \<open>A callback run over a list; the first throw ends the loop.\<close>

fun mapE :: "('a \<Rightarrow> js_error + 'b) \<Rightarrow> 'a list \<Rightarrow> js_error + 'b list" where
  "mapE f [] = Inr []"
| "mapE f (x # xs) =
     (case f x of
        Inl e \<Rightarrow> Inl e
      | Inr y \<Rightarrow> (case mapE f xs of Inl e \<Rightarrow> Inl e | Inr ys \<Rightarrow> Inr (y # ys)))"

text \<open>\<^verbatim>\<open>a || b\<close>\<close>

definition orElse :: "json \<Rightarrow> json \<Rightarrow> json" where
  "orElse a b = (if truthy a then a else b)"

section \<open>The connector type mapping of the route proxy\<close>

text \<open>
  \<^verbatim>\<open>src/app/api/routes/ev/route.ts\<close>, lines 63 to 79: the callback that the proxy maps
  over the \<^verbatim>\<open>connector_types\<close> of a request. \<open>trim\<close> removes the ASCII white space at
  both ends.
\<close>

definition isSpace :: "char \<Rightarrow> bool" where
  "isSpace c = (c \<in> set [CHR '' '', CHR 0x09, CHR 0x0A, CHR 0x0B, CHR 0x0C, CHR 0x0D])"

definition trim :: "string \<Rightarrow> string" where
  "trim s = rev (dropWhile isSpace (rev (dropWhile isSpace s)))"

definition canonicalizeConnectorType :: "string \<Rightarrow> string" where
  "canonicalizeConnectorType raw =
     (let type = trim raw in
      if type = ''type1'' \<or> type = ''j1772'' then ''ccs_combo_type1''
      else if type = ''type2'' \<or> type = ''mennekes'' then ''ccs_combo_type2''
      else if type = ''ccs_type1'' then ''ccs_combo_type1''
      else if type = ''ccs_type2'' then ''ccs_combo_type2''
      else if type \<in> set [''ccs_combo_type1'', ''ccs_combo_type2'', ''tesla'', ''chademo'']
      then type
      else ''ccs_combo_type2'')"

section \<open>The route model\<close>

text \<open>
  The interfaces of \<^verbatim>\<open>services/mapbox/types.ts\<close>. TypeScript does not check the
  provider's data, so a field holds whatever the response holds: its type is \<open>json\<close>.
  A field that the code sets to \<^verbatim>\<open>undefined\<close> by a conditional is an \<open>option\<close>.
\<close>

record chargingWaypoint =
  cw_type :: json
  cw_name :: json
  cw_chargeTime :: json
  cw_chargeTo :: json
  cw_chargeAtArrival :: json
  cw_plugType :: json
  cw_currentType :: json
  cw_powerKw :: json
  cw_stationId :: json
  cw_providerNames :: json
  cw_location :: json

record waypointMetadata =
  md_type :: json
  md_name :: json
  md_chargeTime :: json
  md_chargeTo :: json
  md_chargeAtArrival :: json
  md_plugType :: json
  md_currentType :: json
  md_powerKw :: json
  md_stationId :: json
  md_providerNames :: json

record routeWaypoint =
  wp_name :: json
  wp_location :: json
  wp_metadata :: "waypointMetadata option"

record maneuver =
  mv_location :: json
  mv_bearingBefore :: json
  mv_bearingAfter :: json
  mv_type :: json
  mv_modifier :: json
  mv_instruction :: json

record intersection =
  is_location :: json
  is_bearings :: json
  is_entry :: json
  is_in :: json
  is_out :: json

record routeStep =
  step_distance :: json
  step_duration :: json
  step_geometry :: json
  step_name :: json
  step_mode :: json
  step_maneuver :: maneuver
  step_intersections :: "intersection list"

record legAnnotation =
  an_distance :: json
  an_duration :: json
  an_speed :: json
  an_stateOfCharge :: json

record routeLeg =
  leg_distance :: json
  leg_duration :: json
  leg_summary :: json
  leg_steps :: "routeStep list"
  leg_annotation :: "legAnnotation option"

record evRoute =
  rt_distance :: json
  rt_duration :: json
  rt_geometry :: json
  rt_legs :: "routeLeg list"
  rt_waypoints :: "routeWaypoint list"
  rt_chargingWaypoints :: "chargingWaypoint list"

section \<open>calculateEvRoute\<close>

text \<open>
  \<^verbatim>\<open>services/mapbox/evRouting.ts\<close>, lines 83 to 101: the callback of
  \<^verbatim>\<open>waypointsSource.forEach\<close>. It returns the array \<^verbatim>\<open>chargingWaypoints\<close> after the
  push, or the array as it was.
\<close>

definition isChargingStation :: "json \<Rightarrow> bool" where
  "isChargingStation waypoint =
     (truthy (readProp waypoint ''metadata'') \<and>
      readProp (readProp waypoint ''metadata'') ''type'' = JStr ''charging-station'')"

definition chargingWaypointOf :: "json \<Rightarrow> chargingWaypoint" where
  "chargingWaypointOf waypoint =
     (let metadata = readProp waypoint ''metadata'' in
      \<lparr> cw_type = JStr ''charging-station'',
        cw_name = readProp metadata ''name'',
        cw_chargeTime = readProp metadata ''charge_time'',
        cw_chargeTo = readProp metadata ''charge_to'',
        cw_chargeAtArrival = readProp metadata ''charge_at_arrival'',
        cw_plugType = readProp metadata ''plug_type'',
        cw_currentType = orElse (readProp metadata ''current_type'') (JStr ''''),
        cw_powerKw = readProp metadata ''power_kw'',
        cw_stationId = readProp metadata ''station_id'',
        cw_providerNames = readProp metadata ''provider_names'',
        cw_location = readProp waypoint ''location'' \<rparr>)"

definition pushCharging ::
  "chargingWaypoint list \<Rightarrow> json \<Rightarrow> js_error + chargingWaypoint list" where
  "pushCharging chargingWaypoints waypoint =
     (if nullish waypoint then Inl TypeError
      else if isChargingStation waypoint
      then Inr (chargingWaypoints @ [chargingWaypointOf waypoint])
      else Inr chargingWaypoints)"

fun forEachWaypoint ::
  "chargingWaypoint list \<Rightarrow> json list \<Rightarrow> js_error + chargingWaypoint list" where
  "forEachWaypoint chargingWaypoints [] = Inr chargingWaypoints"
| "forEachWaypoint chargingWaypoints (waypoint # rest) =
     (case pushCharging chargingWaypoints waypoint of
        Inl e \<Rightarrow> Inl e
      | Inr chargingWaypoints' \<Rightarrow> forEachWaypoint chargingWaypoints' rest)"

text \<open>Lines 126 to 132, 112 to 133 and 108 to 140: the callbacks of the three \<^verbatim>\<open>map\<close>s.\<close>

definition intersectionOf :: "json \<Rightarrow> js_error + intersection" where
  "intersectionOf i =
     (if nullish i then Inl TypeError
      else Inr \<lparr> is_location = readProp i ''location'',
                 is_bearings = readProp i ''bearings'',
                 is_entry = readProp i ''entry'',
                 is_in = readProp i ''in'',
                 is_out = readProp i ''out'' \<rparr>)"

definition stepOf :: "json \<Rightarrow> js_error + routeStep" where
  "stepOf step =
     (if nullish step then Inl TypeError
      else if nullish (readProp step ''maneuver'') then Inl TypeError
      else
        (case arrayOf (readProp step ''intersections'') of
           Inl e \<Rightarrow> Inl e
         | Inr is \<Rightarrow>
             (case mapE intersectionOf is of
                Inl e \<Rightarrow> Inl e
              | Inr intersections \<Rightarrow>
                  Inr \<lparr> step_distance = readProp step ''distance'',
                        step_duration = readProp step ''duration'',
                        step_geometry = readProp step ''geometry'',
                        step_name = readProp step ''name'',
                        step_mode = readProp step ''mode'',
                        step_maneuver =
                          (let m = readProp step ''maneuver'' in
                           \<lparr> mv_location = readProp m ''location'',
                             mv_bearingBefore = readProp m ''bearing_before'',
                             mv_bearingAfter = readProp m ''bearing_after'',
                             mv_type = readProp m ''type'',
                             mv_modifier = readProp m ''modifier'',
                             mv_instruction = readProp m ''instruction'' \<rparr>),
                        step_intersections = intersections \<rparr>)))"

definition legOf :: "json \<Rightarrow> js_error + routeLeg" where
  "legOf leg =
     (if nullish leg then Inl TypeError
      else
        (case arrayOf (readProp leg ''steps'') of
           Inl e \<Rightarrow> Inl e
         | Inr ss \<Rightarrow>
             (case mapE stepOf ss of
                Inl e \<Rightarrow> Inl e
              | Inr steps \<Rightarrow>
                  Inr \<lparr> leg_distance = readProp leg ''distance'',
                        leg_duration = readProp leg ''duration'',
                        leg_summary = orElse (readProp leg ''summary'') (JStr ''''),
                        leg_steps = steps,
                        leg_annotation =
                          (let a = readProp leg ''annotation'' in
                           if truthy a
                           then Some \<lparr> an_distance = readProp a ''distance'',
                                       an_duration = readProp a ''duration'',
                                       an_speed = readProp a ''speed'',
                                       an_stateOfCharge = readProp a ''state_of_charge'' \<rparr>
                           else None) \<rparr>)))"

text \<open>Lines 141 to 156: the callback of \<^verbatim>\<open>waypointsSource.map\<close>.\<close>

definition waypointOf :: "json \<Rightarrow> js_error + routeWaypoint" where
  "waypointOf waypoint =
     (if nullish waypoint then Inl TypeError
      else Inr \<lparr> wp_name = readProp waypoint ''name'',
                 wp_location = readProp waypoint ''location'',
                 wp_metadata =
                   (let metadata = readProp waypoint ''metadata'' in
                    if truthy metadata
                    then Some \<lparr> md_type = readProp metadata ''type'',
                                md_name = readProp metadata ''name'',
                                md_chargeTime = readProp metadata ''charge_time'',
                                md_chargeTo = readProp metadata ''charge_to'',
                                md_chargeAtArrival = readProp metadata ''charge_at_arrival'',
                                md_plugType = readProp metadata ''plug_type'',
                                md_currentType =
                                  orElse (readProp metadata ''current_type'') (JStr ''''),
                                md_powerKw = readProp metadata ''power_kw'',
                                md_stationId = readProp metadata ''station_id'',
                                md_providerNames = readProp metadata ''provider_names'' \<rparr>
                    else None) \<rparr>)"

text \<open>Line 71, \<^verbatim>\<open>data.routes[0]\<close>.\<close>

definition firstRouteOf :: "json \<Rightarrow> json" where
  "firstRouteOf data = readProp (readProp data ''routes'') ''0''"

text \<open>
  Line 77, \<^verbatim>\<open>data.waypoints || route.waypoints || []\<close>: \<^verbatim>\<open>route\<close> is read only when
  \<^verbatim>\<open>data.waypoints\<close> is falsy.
\<close>

definition waypointsSourceOf :: "json \<Rightarrow> json \<Rightarrow> js_error + json" where
  "waypointsSourceOf data route =
     (if truthy (readProp data ''waypoints'') then Inr (readProp data ''waypoints'')
      else if nullish route then Inl TypeError
      else Inr (orElse (readProp route ''waypoints'') (JArr [])))"

text \<open>
  Lines 67 to 160, from the parsed body \<^verbatim>\<open>data\<close> to the \<^verbatim>\<open>return\<close>: \<open>Inr None\<close> is
  \<^verbatim>\<open>return null\<close>, \<open>Inr (Some r)\<close> is \<^verbatim>\<open>return evRoute\<close>, \<open>Inl e\<close> is a throw, which
  leaves the \<^verbatim>\<open>try\<close> block. This is the part that the specification calls
  \<^verbatim>\<open>RouteNormalizer.normalize\<close>.
\<close>

definition normalizeData :: "json \<Rightarrow> js_error + evRoute option" where
  "normalizeData data =
     (if nullish data then Inl TypeError
      else if \<not> truthy (readProp data ''routes'') \<or> readProp (readProp data ''routes'') ''length'' = JNum 0
      then Inr None
      else
        (let route = firstRouteOf data in
         case waypointsSourceOf data route of
           Inl e \<Rightarrow> Inl e
         | Inr waypointsSource \<Rightarrow>
             (case arrayOf waypointsSource of
                Inl e \<Rightarrow> Inl e
              | Inr ws \<Rightarrow>
                  (case forEachWaypoint [] ws of
                     Inl e \<Rightarrow> Inl e
                   | Inr chargingWaypoints \<Rightarrow>
                       if nullish route then Inl TypeError
                       else
                         (case arrayOf (readProp route ''legs'') of
                            Inl e \<Rightarrow> Inl e
                          | Inr ls \<Rightarrow>
                              (case mapE legOf ls of
                                 Inl e \<Rightarrow> Inl e
                               | Inr legs \<Rightarrow>
                                   (case mapE waypointOf ws of
                                      Inl e \<Rightarrow> Inl e
                                    | Inr waypoints \<Rightarrow>
                                        Inr (Some
                                          \<lparr> rt_distance = readProp route ''distance'',
                                            rt_duration = readProp route ''duration'',
                                            rt_geometry = readProp route ''geometry'',
                                            rt_legs = legs,
                                            rt_waypoints = waypoints,
                                            rt_chargingWaypoints = chargingWaypoints \<rparr>))))))))"

text \<open>
  Lines 58 to 65, the \<^verbatim>\<open>try\<close> block up to the parsed body. A response that is not
  \<^verbatim>\<open>ok\<close> throws in every case: \<^verbatim>\<open>response.json()\<close> throws on a body that is not JSON,
  \<^verbatim>\<open>errorData.error\<close> throws on \<^verbatim>\<open>null\<close>, and line 62 throws otherwise. The request
  URL is built from the arguments by string concatenation and does not enter the result;
  the outcome of the request is the parameter.
\<close>

definition calculateEvRoute_try :: "json http_outcome \<Rightarrow> js_error + evRoute option" where
  "calculateEvRoute_try outcome =
     (case outcome of
        Rejected \<Rightarrow> Inl NetworkError
      | Responded ok status body \<Rightarrow>
          if \<not> ok then
            (case body of
               None \<Rightarrow> Inl SyntaxError
             | Some errorData \<Rightarrow> if nullish errorData then Inl TypeError else Inl ApiError)
          else
            (case body of
               None \<Rightarrow> Inl SyntaxError
             | Some data \<Rightarrow> normalizeData data))"

text \<open>
  Lines 33 and 161 to 164: the whole body is one \<^verbatim>\<open>try\<close>, and the \<^verbatim>\<open>catch\<close> logs and
  returns \<^verbatim>\<open>null\<close>. The result is what the promise of \<^verbatim>\<open>calculateEvRoute\<close> settles
  to: \<open>Inr\<close> a value it resolves to, \<open>Inl\<close> an error it would reject with.
\<close>

definition calculateEvRoute :: "json http_outcome \<Rightarrow> js_error + evRoute option" where
  "calculateEvRoute outcome =
     (case calculateEvRoute_try outcome of Inl e \<Rightarrow> Inr None | Inr r \<Rightarrow> Inr r)"

text \<open>
  Lines 207 to 209, \<^verbatim>\<open>reduce((total, waypoint) => total + waypoint.chargeTime, 0)\<close>.
  The interface declares \<^verbatim>\<open>chargeTime: number\<close>; the sum is defined on numbers and is
  \<open>None\<close> where JavaScript would coerce another value. The sum of the reals is the sum
  of the doubles as long as no rounding occurs, as for whole seconds.
\<close>

fun addNumber :: "json option \<Rightarrow> json \<Rightarrow> json option" where
  "addNumber (Some (JNum a)) (JNum b) = Some (JNum (a + b))"
| "addNumber _ _ = None"

definition calculateTotalChargingTime :: "evRoute \<Rightarrow> json option" where
  "calculateTotalChargingTime route =
     foldl (\<lambda>total waypoint. addNumber total (cw_chargeTime waypoint))
       (Some (JNum 0)) (rt_chargingWaypoints route)"

text \<open>
  What the specification says of \<^verbatim>\<open>chargingWaypoints\<close>, stated on the route that is
  returned: the charging stop that a waypoint of the route stands for, if its metadata
  marks it as one. \<open>List.map_filter chargingStopOf\<close> is then the filtered projection of
  the waypoints, in their order.
\<close>

definition chargingStopOf :: "routeWaypoint \<Rightarrow> chargingWaypoint option" where
  "chargingStopOf w =
     (case wp_metadata w of
        None \<Rightarrow> None
      | Some m \<Rightarrow>
          if md_type m = JStr ''charging-station''
          then Some \<lparr> cw_type = md_type m, cw_name = md_name m,
                  cw_chargeTime = md_chargeTime m, cw_chargeTo = md_chargeTo m,
                  cw_chargeAtArrival = md_chargeAtArrival m, cw_plugType = md_plugType m,
                  cw_currentType = md_currentType m, cw_powerKw = md_powerKw m,
                  cw_stationId = md_stationId m, cw_providerNames = md_providerNames m,
                  cw_location = wp_location w \<rparr>
          else None)"

text \<open>The waypoints that \<^verbatim>\<open>forEach\<close> runs over, for a body that has them.\<close>

definition waypointListOf :: "json \<Rightarrow> json list" where
  "waypointListOf data =
     (case waypointsSourceOf data (firstRouteOf data) of
        Inr (JArr ws) \<Rightarrow> ws
      | _ \<Rightarrow> [])"

section \<open>The station cache\<close>

text \<open>The interface \<^verbatim>\<open>ChargingStation\<close> of \<^verbatim>\<open>services/mapbox/types.ts\<close>.\<close>

record station =
  st_id :: string
  st_lat :: real
  st_lng :: real
  st_name :: string
  st_chargerType :: "string list"
  st_powerLevel :: real
  st_network :: string
  st_available :: bool
  st_address :: string
  st_city :: "string option"
  st_state :: "string option"
  st_postalCode :: "string option"
  st_country :: "string option"
  st_distance :: "real option"

text \<open>
  \<^verbatim>\<open>x.toFixed(6)\<close> of ECMAScript, for a finite \<open>x\<close> below \<open>10\<^sup>2\<^sup>1\<close> in size, as every
  coordinate is: the sign, then the integer nearest to \<open>\<bar>x\<bar> * 10\<^sup>6\<close> (the larger one
  at a tie), printed with the point before its last six digits.
\<close>

definition digitChar :: "nat \<Rightarrow> char" where
  "digitChar d = ''0123456789'' ! d"

fun showNat :: "nat \<Rightarrow> string" where
  "showNat n = (if n < 10 then [digitChar n] else showNat (n div 10) @ [digitChar (n mod 10)])"

declare showNat.simps [simp del]

definition scaled6 :: "real \<Rightarrow> nat" where
  "scaled6 x = nat \<lfloor>\<bar>x\<bar> * 1000000 + 1 / 2\<rfloor>"

definition fraction6 :: "nat \<Rightarrow> string" where
  "fraction6 n = map (\<lambda>p. digitChar (n div p mod 10)) [100000, 10000, 1000, 100, 10, 1]"

definition toFixed6 :: "real \<Rightarrow> string" where
  "toFixed6 x =
     (if x < 0 then ''-'' else []) @ showNat (scaled6 x div 1000000) @ ''.'' @
     fraction6 (scaled6 x)"

text \<open>
  A JavaScript object with string keys, as the list of its properties in the order of
  their creation, which is the order of \<^verbatim>\<open>Object.values\<close> (no key of the cache is an
  array index: each has an underscore). \<open>objSet\<close> is \<^verbatim>\<open>obj[k] = v\<close>: the value of an
  existing key is replaced where it stands, a new key is added at the end. \<open>spread\<close> is
  \<^verbatim>\<open>{...a, ...b}\<close>.
\<close>

type_synonym cache = "(string \<times> station) list"

fun objSet :: "string \<Rightarrow> 'v \<Rightarrow> (string \<times> 'v) list \<Rightarrow> (string \<times> 'v) list" where
  "objSet k v [] = [(k, v)]"
| "objSet k v ((k', v') # rest) =
     (if k = k' then (k, v) # rest else (k', v') # objSet k v rest)"

definition spread :: "(string \<times> 'v) list \<Rightarrow> (string \<times> 'v) list \<Rightarrow> (string \<times> 'v) list" where
  "spread a b = foldl (\<lambda>obj (k, v). objSet k v obj) a b"

definition snapshot :: "cache \<Rightarrow> station list" where
  "snapshot c = map snd c"

text \<open>
  \<^verbatim>\<open>components/MapWrapper.tsx\<close>, lines 98 to 109 (and again 151 to 162): the callback
  of \<^verbatim>\<open>fetchedStations.forEach\<close>, on the pair of \<^verbatim>\<open>newStations\<close> and \<^verbatim>\<open>cacheUpdated\<close>.
  \<^verbatim>\<open>stationsCache\<close> is the constant of the render in which \<^verbatim>\<open>fetchStations\<close> was
  created: the cache as it was when the fetch was requested.
\<close>

definition locationHashOf :: "station \<Rightarrow> string" where
  "locationHashOf station = toFixed6 (st_lat station) @ '','' @ toFixed6 (st_lng station)"

definition cacheKeyOf :: "station \<Rightarrow> string" where
  "cacheKeyOf station = st_id station @ ''_'' @ locationHashOf station"

definition addIfAbsent :: "cache \<Rightarrow> cache \<times> bool \<Rightarrow> station \<Rightarrow> cache \<times> bool" where
  "addIfAbsent stationsCache acc station =
     (if map_of stationsCache (cacheKeyOf station) = None
      then (objSet (cacheKeyOf station) station (fst acc), True)
      else acc)"

definition newStationsOf :: "cache \<Rightarrow> station list \<Rightarrow> cache \<times> bool" where
  "newStationsOf stationsCache fetchedStations =
     foldl (addIfAbsent stationsCache) ([], False) fetchedStations"

text \<open>
  Lines 94 to 117: the cache that a list of fetched stations leaves, from the cache of
  the closure and the cache at the time of the update (\<^verbatim>\<open>prevCache\<close>).
\<close>

definition mergeStations :: "cache \<Rightarrow> station list \<Rightarrow> cache \<Rightarrow> cache" where
  "mergeStations stationsCache fetchedStations prevCache =
     (case newStationsOf stationsCache fetchedStations of
        (newStations, cacheUpdated) \<Rightarrow>
          if cacheUpdated then spread prevCache newStations else prevCache)"

section \<open>fetchChargingStations\<close>

text \<open>
  The parsed body of the station proxy's answer: an array of stations, or another JSON
  value, on which \<^verbatim>\<open>forEach\<close> or \<^verbatim>\<open>toFixed\<close> throws.
\<close>

datatype stations_body = StationsBody "station list" | MalformedBody

text \<open>
  \<^verbatim>\<open>services/mapbox/chargingStations.ts\<close>, lines 68 to 77, and the \<^verbatim>\<open>catch\<close> of lines 78
  to 81, which logs and returns the empty array.
\<close>

definition fetchChargingStations_try :: "stations_body http_outcome \<Rightarrow> js_error + stations_body" where
  "fetchChargingStations_try outcome =
     (case outcome of
        Rejected \<Rightarrow> Inl NetworkError
      | Responded ok status body \<Rightarrow>
          if \<not> ok then (case body of None \<Rightarrow> Inl SyntaxError | Some errorData \<Rightarrow> Inl ApiError)
          else (case body of None \<Rightarrow> Inl SyntaxError | Some stations \<Rightarrow> Inr stations))"

definition fetchChargingStations :: "stations_body http_outcome \<Rightarrow> stations_body" where
  "fetchChargingStations outcome =
     (case fetchChargingStations_try outcome of
        Inl e \<Rightarrow> StationsBody []
      | Inr stations \<Rightarrow> stations)"

section \<open>MapWrapper: when stations are fetched\<close>

text \<open>
  The component's properties and the part of its state that decides fetches, cache and
  error message. Time is in milliseconds. A request that awaits its answer is in
  \<open>inFlight\<close>, with its arguments and the \<^verbatim>\<open>stationsCache\<close> of its closure; the options
  of the request are the constants \<^verbatim>\<open>limit: 100\<close> and \<^verbatim>\<open>availability: 'AVAILABLE'\<close>.
  \<open>issued\<close> lists the calls of \<^verbatim>\<open>fetchChargingStations\<close> so far. \<open>debounceTimer\<close> is the
  timer of \<^verbatim>\<open>debounceTimerRef\<close> while it is pending. The loading indicator and its 300 ms
  timer touch nothing else and are left out.
\<close>

record center =
  lat :: real
  lng :: real

record props =
  centerLat :: real
  centerLng :: real
  zoom :: real
  searchRadius :: real
  useRealData :: bool

record fetchCall =
  fc_lat :: real
  fc_lng :: real
  fc_radius :: real
  fc_stationsCache :: cache

record timer =
  tm_deadline :: nat
  tm_call :: fetchCall

record wrapperState =
  stationsCache :: cache
  error :: "string option"
  mapCenter :: center
  mapZoom :: real
  debounceTimer :: "timer option"
  inFlight :: "fetchCall list"
  issued :: "(real \<times> real \<times> real) list"
  now :: nat

text \<open>
  Lines 80 to 92 and 133 to 145: \<^verbatim>\<open>setError(null)\<close> and the call of
  \<^verbatim>\<open>fetchChargingStations\<close>, up to the \<^verbatim>\<open>await\<close>.
\<close>

definition startFetch :: "fetchCall \<Rightarrow> wrapperState \<Rightarrow> wrapperState" where
  "startFetch call s =
     s\<lparr> error := None,
        inFlight := inFlight s @ [call],
        issued := issued s @ [(fc_lat call, fc_lng call, fc_radius call)] \<rparr>"

text \<open>Lines 70 to 181, \<^verbatim>\<open>fetchStations\<close>, up to the first \<^verbatim>\<open>await\<close> or \<^verbatim>\<open>setTimeout\<close>.\<close>

definition fetchStations ::
  "props \<Rightarrow> real \<Rightarrow> real \<Rightarrow> real \<Rightarrow> bool \<Rightarrow> wrapperState \<Rightarrow> wrapperState" where
  "fetchStations p lat' lng' radius immediate s =
     (if \<not> useRealData p then s
      else
        (let call = \<lparr> fc_lat = lat', fc_lng = lng', fc_radius = radius,
                       fc_stationsCache = stationsCache s \<rparr>;
             s1 = s\<lparr> debounceTimer := None \<rparr>
         in if immediate then startFetch call s1
            else s1\<lparr> debounceTimer := Some \<lparr> tm_deadline = now s + 800, tm_call = call \<rparr> \<rparr>))"

text \<open>
  Lines 184 to 188: the effect that fetches at once for the centre of the properties.
  It depends on \<^verbatim>\<open>fetchStations\<close>, which \<^verbatim>\<open>useCallback\<close> makes anew whenever
  \<^verbatim>\<open>stationsCache\<close> changes, so React runs it on mount and after every update of the
  cache.
\<close>

definition mountEffect :: "props \<Rightarrow> wrapperState \<Rightarrow> wrapperState" where
  "mountEffect p s =
     (if useRealData p
      then fetchStations p (centerLat p) (centerLng p) (searchRadius p) True s
      else s)"

definition mount :: "props \<Rightarrow> wrapperState" where
  "mount p =
     mountEffect p
       \<lparr> stationsCache = [], error = None,
         mapCenter = \<lparr> lat = centerLat p, lng = centerLng p \<rparr>, mapZoom = zoom p,
         debounceTimer = None, inFlight = [], issued = [], now = 0 \<rparr>"

text \<open>Lines 241 to 252.\<close>

definition handleMapMove :: "props \<Rightarrow> center \<Rightarrow> real \<Rightarrow> wrapperState \<Rightarrow> wrapperState" where
  "handleMapMove p newCenter newZoom s =
     (let s1 = s\<lparr> mapCenter := newCenter, mapZoom := newZoom \<rparr>
      in if newZoom \<ge> 12
         then fetchStations p (lat newCenter) (lng newCenter) (searchRadius p) False s1
         else s1)"

text \<open>
  Time passes: a pending debounce timer whose 800 ms are over runs its callback
  (lines 131 to 145), which starts the fetch with the arguments of its closure.
\<close>

definition elapse :: "nat \<Rightarrow> wrapperState \<Rightarrow> wrapperState" where
  "elapse dt s =
     (case debounceTimer s of
        None \<Rightarrow> s\<lparr> now := now s + dt \<rparr>
      | Some t \<Rightarrow>
          if tm_deadline t \<le> now s + dt
          then (startFetch (tm_call t) (s\<lparr> debounceTimer := None \<rparr>))\<lparr> now := now s + dt \<rparr>
          else s\<lparr> now := now s + dt \<rparr>)"

text \<open>
  Lines 94 to 125 (and 147 to 178): what follows the \<^verbatim>\<open>await\<close> when the request
  \<open>call\<close> is answered. The \<^verbatim>\<open>catch\<close> sets the error message. An update of the cache
  makes React run the effect of lines 184 to 188 again.
\<close>

definition fetchCompleted ::
  "props \<Rightarrow> fetchCall \<Rightarrow> stations_body http_outcome \<Rightarrow> wrapperState \<Rightarrow> wrapperState" where
  "fetchCompleted p call outcome s =
     (case fetchChargingStations outcome of
        MalformedBody \<Rightarrow>
          s\<lparr> error := Some ''Failed to fetch charging stations. Please try again later.'' \<rparr>
      | StationsBody fetchedStations \<Rightarrow>
          (case newStationsOf (fc_stationsCache call) fetchedStations of
             (newStations, cacheUpdated) \<Rightarrow>
               if cacheUpdated
               then mountEffect p (s\<lparr> stationsCache := spread (stationsCache s) newStations \<rparr>)
               else s))"

text \<open>The events of a session: the \<open>i\<close>-th request in flight is answered, in any order.\<close>

datatype event =
    MapMove center real
  | Elapse nat
  | Response nat "stations_body http_outcome"

definition respond :: "props \<Rightarrow> nat \<Rightarrow> stations_body http_outcome \<Rightarrow> wrapperState \<Rightarrow> wrapperState" where
  "respond p i outcome s =
     (if i < length (inFlight s)
      then fetchCompleted p (inFlight s ! i) outcome
             (s\<lparr> inFlight := take i (inFlight s) @ drop (Suc i) (inFlight s) \<rparr>)
      else s)"

fun step :: "props \<Rightarrow> wrapperState \<Rightarrow> event \<Rightarrow> wrapperState" where
  "step p s (MapMove newCenter newZoom) = handleMapMove p newCenter newZoom s"
| "step p s (Elapse dt) = elapse dt s"
| "step p s (Response i outcome) = respond p i outcome s"

definition run :: "props \<Rightarrow> wrapperState \<Rightarrow> event list \<Rightarrow> wrapperState" where
  "run p s evs = foldl (step p) s evs"

text \<open>
  The keys of a cache, and the states in which every closure holds an earlier cache: the
  keys of its \<^verbatim>\<open>stationsCache\<close> are keys of the cache of the state.
\<close>

definition keysOf :: "cache \<Rightarrow> string set" where
  "keysOf c = fst ` set c"

definition closuresOlder :: "wrapperState \<Rightarrow> bool" where
  "closuresOlder s =
     ((\<forall>call \<in> set (inFlight s). keysOf (fc_stationsCache call) \<subseteq> keysOf (stationsCache s)) \<and>
      (\<forall>t. debounceTimer s = Some t \<longrightarrow>
         keysOf (fc_stationsCache (tm_call t)) \<subseteq> keysOf (stationsCache s)))"





section \<open>Concrete inputs\<close>

definition scenarioResponse :: json where
  "scenarioResponse =
     JObj [(''routes'',
             JArr [JObj [(''distance'', JNum 12000), (''duration'', JNum 900),
                         (''geometry'', JStr ''g''), (''legs'', JArr [])]]),
           (''waypoints'',
             JArr [JObj [(''name'', JStr ''Depart''),
                         (''location'', JArr [JNum (-74.1), JNum 40.7])],
                   JObj [(''name'', JStr ''Stop''),
                         (''location'', JArr [JNum (-74.006), JNum 40.7128]),
                         (''metadata'',
                           JObj [(''type'', JStr ''charging-station''),
                                 (''charge_time'', JNum 1800),
                                 (''plug_type'', JStr ''type2'')])]])]"

text \<open>The route that \<open>scenarioResponse\<close> is turned into.\<close>

definition scenarioRoute :: evRoute where
  "scenarioRoute =
     \<lparr> rt_distance = JNum 12000, rt_duration = JNum 900, rt_geometry = JStr ''g'',
       rt_legs = [],
       rt_waypoints =
         [\<lparr> wp_name = JStr ''Depart'',
            wp_location = JArr [JNum (-74.1), JNum 40.7],
            wp_metadata = None \<rparr>,
          \<lparr> wp_name = JStr ''Stop'',
            wp_location = JArr [JNum (-74.006), JNum 40.7128],
            wp_metadata =
              Some \<lparr> md_type = JStr ''charging-station'', md_name = JUndefined,
                     md_chargeTime = JNum 1800, md_chargeTo = JUndefined,
                     md_chargeAtArrival = JUndefined, md_plugType = JStr ''type2'',
                     md_currentType = JStr [], md_powerKw = JUndefined,
                     md_stationId = JUndefined, md_providerNames = JUndefined \<rparr> \<rparr>],
       rt_chargingWaypoints =
         [\<lparr> cw_type = JStr ''charging-station'', cw_name = JUndefined,
            cw_chargeTime = JNum 1800, cw_chargeTo = JUndefined,
            cw_chargeAtArrival = JUndefined, cw_plugType = JStr ''type2'',
            cw_currentType = JStr [], cw_powerKw = JUndefined,
            cw_stationId = JUndefined, cw_providerNames = JUndefined,
            cw_location = JArr [JNum (-74.006), JNum 40.7128] \<rparr>] \<rparr>"

text \<open>A body whose first route has the given \<^verbatim>\<open>legs\<close>.\<close>

definition routeWithLegs :: "json \<Rightarrow> json" where
  "routeWithLegs legs =
     JObj [(''routes'', JArr [JObj [(''distance'', JNum 12000), (''legs'', legs)]]),
           (''waypoints'', JArr [])]"

definition stationA :: station where
  "stationA =
     \<lparr> st_id = ''A'', st_lat = 40.7128, st_lng = -74.006, st_name = ''Alpha'',
       st_chargerType = [''IEC_62196_T2_COMBO''], st_powerLevel = 150,
       st_network = ''Net'', st_available = True, st_address = ''1 Main St'',
       st_city = None, st_state = None, st_postalCode = None, st_country = None,
       st_distance = Some 2 \<rparr>"

text \<open>
  The station of \<open>stationA\<close> as a later query returns it: the distance is taken from
  another centre.
\<close>

definition stationA_later :: station where
  "stationA_later =
     \<lparr> st_id = ''A'', st_lat = 40.7128, st_lng = -74.006, st_name = ''Alpha'',
       st_chargerType = [''IEC_62196_T2_COMBO''], st_powerLevel = 150,
       st_network = ''Net'', st_available = True, st_address = ''1 Main St'',
       st_city = None, st_state = None, st_postalCode = None, st_country = None,
       st_distance = Some 4.2 \<rparr>"

text \<open>The station of \<open>stationA\<close> after the provider has renamed it.\<close>

definition stationA_renamed :: station where
  "stationA_renamed =
     \<lparr> st_id = ''A'', st_lat = 40.7128, st_lng = -74.006, st_name = ''Alpha Garage'',
       st_chargerType = [''IEC_62196_T2_COMBO''], st_powerLevel = 150,
       st_network = ''Net'', st_available = True, st_address = ''1 Main St'',
       st_city = None, st_state = None, st_postalCode = None, st_country = None,
       st_distance = Some 2 \<rparr>"

definition stationsOk :: "station list \<Rightarrow> stations_body http_outcome" where
  "stationsOk ss = Responded True 200 (Some (StationsBody ss))"

text \<open>
  A map that opens on lower Manhattan, two kilometres from \<open>stationA\<close>; its centre, to
  which a zoom without a pan moves the map; and two pans.
\<close>

definition cityProps :: props where
  "cityProps =
     \<lparr> centerLat = 40.73, centerLng = -74, zoom = 12, searchRadius = 50,
       useRealData = True \<rparr>"

definition home :: center where
  "home = \<lparr> lat = 40.73, lng = -74 \<rparr>"

definition pan1 :: center where
  "pan1 = \<lparr> lat = 40.75, lng = -74 \<rparr>"

definition pan2 :: center where
  "pan2 = \<lparr> lat = 40.8, lng = -74 \<rparr>"


section \<open>Lemmas on the route service\<close>

lemma arrayOf_Inr: "arrayOf v = Inr xs \<Longrightarrow> v = JArr xs"
  by (cases v) simp_all

lemma mapE_Inr_elem: "mapE f xs = Inr ys \<Longrightarrow> x \<in> set xs \<Longrightarrow> \<exists>y. f x = Inr y"
proof (induction xs arbitrary: ys)
  case Nil
  then show ?case by simp
next
  case (Cons a xs)
  from Cons.prems(1) obtain b bs where a: "f a = Inr b" and r: "mapE f xs = Inr bs"
    by (auto split: sum.splits)
  from Cons.prems(2) have "x = a \<or> x \<in> set xs" by simp
  then show ?case
  proof
    assume "x = a"
    with a show ?thesis by blast
  next
    assume "x \<in> set xs"
    with Cons.IH [OF r] show ?thesis .
  qed
qed

text \<open>The loop of lines 83 to 101 appends one entry for each waypoint that passes the test.\<close>

lemma forEachWaypoint_collects:
  "forEachWaypoint acc ws = Inr cs \<Longrightarrow>
   cs = acc @ map chargingWaypointOf (filter isChargingStation ws)"
proof (induction ws arbitrary: acc)
  case Nil
  then show ?case by simp
next
  case (Cons w ws)
  from Cons.prems obtain acc' where p: "pushCharging acc w = Inr acc'"
    and r: "forEachWaypoint acc' ws = Inr cs"
    by (auto split: sum.splits)
  from p have "acc' = acc @ map chargingWaypointOf (filter isChargingStation [w])"
    by (auto simp: pushCharging_def split: if_splits)
  with Cons.IH [OF r] show ?case by simp
qed

lemma waypointOf_stop:
  "waypointOf w = Inr w' \<Longrightarrow>
   chargingStopOf w' = (if isChargingStation w then Some (chargingWaypointOf w) else None)"
  by (auto simp: waypointOf_def chargingStopOf_def isChargingStation_def chargingWaypointOf_def
      Let_def split: if_splits)

lemma mapE_waypoints_stops:
  "mapE waypointOf ws = Inr wps \<Longrightarrow>
   List.map_filter chargingStopOf wps = map chargingWaypointOf (filter isChargingStation ws)"
proof (induction ws arbitrary: wps)
  case Nil
  then show ?case by simp
next
  case (Cons w ws)
  from Cons.prems obtain w' wps' where w': "waypointOf w = Inr w'"
    and r: "mapE waypointOf ws = Inr wps'" and wps: "wps = w' # wps'"
    by (auto split: sum.splits)
  show ?case
    unfolding wps using Cons.IH [OF r] waypointOf_stop [OF w']
    by simp
qed

text \<open>What a returned route says of the body it was made from.\<close>

lemma normalizeData_Some:
  assumes "normalizeData data = Inr (Some route)"
  shows "\<exists>ws ls. waypointsSourceOf data (firstRouteOf data) = Inr (JArr ws) \<and>
           forEachWaypoint [] ws = Inr (rt_chargingWaypoints route) \<and>
           mapE waypointOf ws = Inr (rt_waypoints route) \<and>
           readProp (firstRouteOf data) ''legs'' = JArr ls \<and>
           mapE legOf ls = Inr (rt_legs route)"
  using assms unfolding normalizeData_def firstRouteOf_def Let_def
  by (auto split: if_splits sum.splits dest!: arrayOf_Inr)

lemma calculateEvRoute_Some:
  assumes "calculateEvRoute outcome = Inr (Some route)"
  shows "\<exists>status data. outcome = Responded True status (Some data) \<and>
           normalizeData data = Inr (Some route)"
  using assms unfolding calculateEvRoute_def calculateEvRoute_try_def
  by (auto split: http_outcome.splits if_splits option.splits sum.splits)

lemma calculateEvRoute_cases:
  "calculateEvRoute outcome = Inr None \<or> (\<exists>route. calculateEvRoute outcome = Inr (Some route))"
proof (cases "calculateEvRoute_try outcome")
  case (Inl e)
  then show ?thesis by (simp add: calculateEvRoute_def)
next
  case (Inr r)
  then show ?thesis by (cases r) (simp_all add: calculateEvRoute_def)
qed

lemma legOf_Inr:
  "legOf leg = Inr l \<Longrightarrow> \<exists>ss steps. readProp leg ''steps'' = JArr ss \<and> mapE stepOf ss = Inr steps"
  unfolding legOf_def
  by (auto split: if_splits sum.splits dest!: arrayOf_Inr)

lemma stepOf_Inr: "stepOf st = Inr s \<Longrightarrow> \<not> nullish (readProp st ''maneuver'')"
  unfolding stepOf_def
  by (auto split: if_splits)

lemma route_needs_legs:
  assumes "calculateEvRoute (Responded True status (Some data)) = Inr (Some route)"
  shows "\<exists>ls legs. readProp (firstRouteOf data) ''legs'' = JArr ls \<and> mapE legOf ls = Inr legs"
proof -
  from calculateEvRoute_Some [OF assms] have "normalizeData data = Inr (Some route)"
    by simp
  from normalizeData_Some [OF this] show ?thesis
    by blast
qed

lemma scenario_normalizes: "normalizeData scenarioResponse = Inr (Some scenarioRoute)"
  by (simp add: normalizeData_def firstRouteOf_def scenarioResponse_def scenarioRoute_def waypointsSourceOf_def
      pushCharging_def isChargingStation_def chargingWaypointOf_def waypointOf_def orElse_def)

lemma scenario_route:
  "calculateEvRoute (Responded True 200 (Some scenarioResponse)) = Inr (Some scenarioRoute)"
  by (simp add: calculateEvRoute_def calculateEvRoute_try_def scenario_normalizes)

lemma plugType_of_chargingWaypointOf:
  "cw_plugType (chargingWaypointOf w) = readProp (readProp w ''metadata'') ''plug_type''"
  by (simp add: chargingWaypointOf_def Let_def)

lemma waypointListOf_scenario:
  "filter isChargingStation (waypointListOf scenarioResponse) =
     [JObj [(''name'', JStr ''Stop''),
            (''location'', JArr [JNum (-74.006), JNum 40.7128]),
            (''metadata'',
               JObj [(''type'', JStr ''charging-station''),
                     (''charge_time'', JNum 1800),
                     (''plug_type'', JStr ''type2'')])]]"
  by (simp add: waypointListOf_def firstRouteOf_def scenarioResponse_def waypointsSourceOf_def
      isChargingStation_def)

section \<open>The claims on the route service\<close>

text \<open>
  Claim C1, as the code has it. The claim says that the plug type of a charging waypoint
  is canonicalized before it is stored. The code stores it as the provider sent it: for
  every response that is turned into a route, the charging waypoints are the waypoints
  of the response that pass the test of line 84, each copied by the object literal of
  lines 87 to 99, and the \<^verbatim>\<open>plugType\<close> of each is the \<^verbatim>\<open>plug_type\<close> of its metadata,
  unchanged. The mapping of connector types is applied by the proxy to the connector
  types of a request only.
\<close>

theorem plugType_copied_unchanged:
  assumes "calculateEvRoute (Responded True status (Some data)) = Inr (Some route)"
  shows "rt_chargingWaypoints route =
           map chargingWaypointOf (filter isChargingStation (waypointListOf data)) \<and>
         map cw_plugType (rt_chargingWaypoints route) =
           map (\<lambda>w. readProp (readProp w ''metadata'') ''plug_type'')
             (filter isChargingStation (waypointListOf data))"
proof -
  from calculateEvRoute_Some [OF assms] have "normalizeData data = Inr (Some route)"
    by simp
  from normalizeData_Some [OF this] obtain ws where
    w: "waypointsSourceOf data (firstRouteOf data) = Inr (JArr ws)" and
    f: "forEachWaypoint [] ws = Inr (rt_chargingWaypoints route)"
    by blast
  from w have l: "waypointListOf data = ws"
    by (simp add: waypointListOf_def)
  from forEachWaypoint_collects [OF f] l
  have c: "rt_chargingWaypoints route =
             map chargingWaypointOf (filter isChargingStation (waypointListOf data))"
    by simp
  have p: "map cw_plugType (rt_chargingWaypoints route) =
           map (\<lambda>w. readProp (readProp w ''metadata'') ''plug_type'')
             (filter isChargingStation (waypointListOf data))"
    unfolding c by (simp add: plugType_of_chargingWaypointOf comp_def)
  from c p show ?thesis by (rule conjI)
qed

text \<open>
  The scenario of the specification: one charging waypoint with \<^verbatim>\<open>plug_type\<close>
  \<^verbatim>\<open>"type2"\<close> and \<^verbatim>\<open>charge_time\<close> 1800 gives one entry, with \<^verbatim>\<open>plugType\<close> \<^verbatim>\<open>"type2"\<close>, and
  a total charging time of 1800 seconds.
\<close>

theorem plugType_copied_unchanged_witness:
  "calculateEvRoute (Responded True 200 (Some scenarioResponse)) = Inr (Some scenarioRoute) \<and>
   map cw_plugType (rt_chargingWaypoints scenarioRoute) = [JStr ''type2''] \<and>
   calculateTotalChargingTime scenarioRoute = Some (JNum 1800)"
proof -
  have a: "calculateEvRoute (Responded True 200 (Some scenarioResponse)) = Inr (Some scenarioRoute)"
    by (rule scenario_route)
  from plugType_copied_unchanged [OF a]
  have "map cw_plugType (rt_chargingWaypoints scenarioRoute) =
          map (\<lambda>w. readProp (readProp w ''metadata'') ''plug_type'')
            (filter isChargingStation (waypointListOf scenarioResponse))"
    by (rule conjunct2)
  then have b: "map cw_plugType (rt_chargingWaypoints scenarioRoute) = [JStr ''type2'']"
    by (simp add: waypointListOf_scenario)
  have c: "calculateTotalChargingTime scenarioRoute = Some (JNum 1800)"
    by (simp add: calculateTotalChargingTime_def scenarioRoute_def)
  from a b c show ?thesis by blast
qed

text \<open>
  Claim C1 as stated fails on the scenario: the entry's \<^verbatim>\<open>plugType\<close> is not the
  canonical form of \<^verbatim>\<open>"type2"\<close>, which is \<^verbatim>\<open>"ccs_combo_type2"\<close>.
\<close>

theorem plugType_not_canonicalized:
  "calculateEvRoute (Responded True 200 (Some scenarioResponse)) = Inr (Some scenarioRoute) \<and>
   map cw_plugType (rt_chargingWaypoints scenarioRoute) \<noteq>
     [JStr (canonicalizeConnectorType ''type2'')] \<and>
   canonicalizeConnectorType ''type2'' = ''ccs_combo_type2''"
proof -
  have c: "canonicalizeConnectorType ''type2'' = ''ccs_combo_type2''"
    by (simp add: canonicalizeConnectorType_def trim_def isSpace_def)
  have "map cw_plugType (rt_chargingWaypoints scenarioRoute) = [JStr ''type2'']"
    by (simp add: scenarioRoute_def)
  then have "map cw_plugType (rt_chargingWaypoints scenarioRoute) \<noteq>
     [JStr (canonicalizeConnectorType ''type2'')]"
    by (simp add: c)
  with c scenario_route show ?thesis by blast
qed

text \<open>
  Claim C8. For every route that \<^verbatim>\<open>calculateEvRoute\<close> returns, \<^verbatim>\<open>chargingWaypoints\<close> is
  the filtered projection of \<^verbatim>\<open>waypoints\<close>: going through the waypoints of the route in
  their order and keeping, for each one whose metadata has the type
  \<^verbatim>\<open>'charging-station'\<close>, the charging stop made of its metadata and its location, gives
  exactly the list \<^verbatim>\<open>chargingWaypoints\<close>.
\<close>

theorem chargingWaypoints_filtered_projection:
  assumes "calculateEvRoute outcome = Inr (Some route)"
  shows "rt_chargingWaypoints route = List.map_filter chargingStopOf (rt_waypoints route)"
proof -
  from calculateEvRoute_Some [OF assms] obtain data where "normalizeData data = Inr (Some route)"
    by blast
  from normalizeData_Some [OF this] obtain ws where
    f: "forEachWaypoint [] ws = Inr (rt_chargingWaypoints route)" and
    m: "mapE waypointOf ws = Inr (rt_waypoints route)"
    by blast
  from forEachWaypoint_collects [OF f] mapE_waypoints_stops [OF m] show ?thesis by simp
qed

theorem chargingWaypoints_filtered_projection_witness:
  "calculateEvRoute (Responded True 200 (Some scenarioResponse)) = Inr (Some scenarioRoute) \<and>
   rt_chargingWaypoints scenarioRoute = List.map_filter chargingStopOf (rt_waypoints scenarioRoute) \<and>
   length (rt_waypoints scenarioRoute) = 2 \<and> length (rt_chargingWaypoints scenarioRoute) = 1"
proof -
  have a: "calculateEvRoute (Responded True 200 (Some scenarioResponse)) = Inr (Some scenarioRoute)"
    by (rule scenario_route)
  have b: "rt_chargingWaypoints scenarioRoute = List.map_filter chargingStopOf (rt_waypoints scenarioRoute)"
    by (rule chargingWaypoints_filtered_projection [OF a])
  have c: "length (rt_waypoints scenarioRoute) = 2 \<and> length (rt_chargingWaypoints scenarioRoute) = 1"
    by (simp add: scenarioRoute_def)
  from a b c show ?thesis by blast
qed

text \<open>
  Claim C9. For a body that is an object without \<^verbatim>\<open>routes\<close>, or with \<^verbatim>\<open>routes\<close> the empty
  array, lines 67 to 69 return \<^verbatim>\<open>null\<close> and nothing is thrown: the part after the parse
  and the \<^verbatim>\<open>try\<close> block return \<open>Inr None\<close>, not an error that the \<^verbatim>\<open>catch\<close> would have
  to turn into \<^verbatim>\<open>null\<close>, as a failed request is, and \<^verbatim>\<open>calculateEvRoute\<close> returns
  \<^verbatim>\<open>null\<close>.
\<close>

theorem no_routes_returns_null:
  assumes "map_of kvs ''routes'' = None \<or> map_of kvs ''routes'' = Some (JArr [])"
  shows "normalizeData (JObj kvs) = Inr None \<and>
         calculateEvRoute_try (Responded True status (Some (JObj kvs))) = Inr None \<and>
         calculateEvRoute (Responded True status (Some (JObj kvs))) = Inr None \<and>
         calculateEvRoute_try (Responded True status (Some (JObj kvs))) \<noteq>
           calculateEvRoute_try Rejected"
proof -
  from assms have "normalizeData (JObj kvs) = Inr None"
    by (auto simp: normalizeData_def)
  then show ?thesis
    by (simp add: calculateEvRoute_def calculateEvRoute_try_def)
qed

theorem no_routes_returns_null_witness:
  "(map_of [(''code'', JStr ''NoRoute''), (''routes'', JArr [])] ''routes'' = Some (JArr [])) \<and>
   normalizeData (JObj [(''code'', JStr ''NoRoute''), (''routes'', JArr [])]) = Inr None \<and>
   calculateEvRoute (Responded True 200 (Some (JObj [(''code'', JStr ''NoRoute''), (''routes'', JArr [])])))
     = Inr None \<and>
   map_of [(''code'', JStr ''NoRoute'')] ''routes'' = None \<and>
   normalizeData (JObj [(''code'', JStr ''NoRoute'')]) = Inr None"
proof -
  have h: "map_of [(''code'', JStr ''NoRoute''), (''routes'', JArr [])] ''routes'' = Some (JArr [])"
    by simp
  have g: "map_of [(''code'', JStr ''NoRoute'')] ''routes'' = None"
    by simp
  from no_routes_returns_null [OF disjI2 [OF h], of 200]
    no_routes_returns_null [OF disjI1 [OF g], of 200] h g
  show ?thesis
    by blast
qed

text \<open>
  Claim C10. \<^verbatim>\<open>calculateEvRoute\<close> never throws: its promise resolves for every outcome
  of the request. Whatever is thrown inside the \<^verbatim>\<open>try\<close> comes out as \<^verbatim>\<open>null\<close>: a
  rejected request, a response that is not ok, a body that is not JSON, and a first
  route whose \<^verbatim>\<open>legs\<close> is not an array, one of whose legs has no array of \<^verbatim>\<open>steps\<close>, or
  one of whose steps has no \<^verbatim>\<open>maneuver\<close>. That is the value returned for a response
  with no routes, so the caller cannot tell a failure from "no route".
\<close>

theorem calculateEvRoute_failures_return_null:
  "(\<exists>r. calculateEvRoute outcome = Inr r) \<and>
   (calculateEvRoute_try outcome = Inl e \<longrightarrow> calculateEvRoute outcome = Inr None) \<and>
   calculateEvRoute Rejected = Inr None \<and>
   calculateEvRoute (Responded False status body) = Inr None \<and>
   calculateEvRoute (Responded True status None) = Inr None \<and>
   ((\<forall>ls. readProp (firstRouteOf data) ''legs'' \<noteq> JArr ls) \<longrightarrow>
      calculateEvRoute (Responded True status (Some data)) = Inr None) \<and>
   (readProp (firstRouteOf data) ''legs'' = JArr ls \<and> leg \<in> set ls \<and>
    (\<forall>ss. readProp leg ''steps'' \<noteq> JArr ss) \<longrightarrow>
      calculateEvRoute (Responded True status (Some data)) = Inr None) \<and>
   (readProp (firstRouteOf data) ''legs'' = JArr ls \<and> leg \<in> set ls \<and>
    readProp leg ''steps'' = JArr ss \<and> st \<in> set ss \<and> nullish (readProp st ''maneuver'') \<longrightarrow>
      calculateEvRoute (Responded True status (Some data)) = Inr None) \<and>
   calculateEvRoute (Responded True status (Some (JObj [(''routes'', JArr [])]))) = Inr None"
proof -
  let ?res = "calculateEvRoute (Responded True status (Some data))"
  have total: "\<exists>r. calculateEvRoute outcome = Inr r"
    using calculateEvRoute_cases [of outcome] by blast
  have caught: "calculateEvRoute_try outcome = Inl e \<longrightarrow> calculateEvRoute outcome = Inr None"
    by (simp add: calculateEvRoute_def)
  have rejected: "calculateEvRoute Rejected = Inr None"
    by (simp add: calculateEvRoute_def calculateEvRoute_try_def)
  have notok: "calculateEvRoute (Responded False status body) = Inr None"
    by (simp add: calculateEvRoute_def calculateEvRoute_try_def split: option.splits)
  have nojson: "calculateEvRoute (Responded True status None) = Inr None"
    by (simp add: calculateEvRoute_def calculateEvRoute_try_def)
  have nolegs: "?res = Inr None" if h: "\<forall>ls. readProp (firstRouteOf data) ''legs'' \<noteq> JArr ls"
  proof -
    have "?res \<noteq> Inr (Some route)" for route
      using route_needs_legs [of status data route] h by blast
    with calculateEvRoute_cases [of "Responded True status (Some data)"] show ?thesis by blast
  qed
  have nosteps: "?res = Inr None"
    if l: "readProp (firstRouteOf data) ''legs'' = JArr ls" and m: "leg \<in> set ls"
      and h: "\<forall>ss. readProp leg ''steps'' \<noteq> JArr ss"
  proof -
    have "?res \<noteq> Inr (Some route)" for route
    proof
      assume "?res = Inr (Some route)"
      from route_needs_legs [OF this] l obtain legs where "mapE legOf ls = Inr legs"
        by auto
      from mapE_Inr_elem [OF this m] obtain x where "legOf leg = Inr x" ..
      from legOf_Inr [OF this] h show False by blast
    qed
    with calculateEvRoute_cases [of "Responded True status (Some data)"] show ?thesis by blast
  qed
  have nomaneuver: "?res = Inr None"
    if l: "readProp (firstRouteOf data) ''legs'' = JArr ls" and m: "leg \<in> set ls"
      and s: "readProp leg ''steps'' = JArr ss" and n: "st \<in> set ss"
      and h: "nullish (readProp st ''maneuver'')"
  proof -
    have "?res \<noteq> Inr (Some route)" for route
    proof
      assume "?res = Inr (Some route)"
      from route_needs_legs [OF this] l obtain legs where "mapE legOf ls = Inr legs"
        by auto
      from mapE_Inr_elem [OF this m] obtain x where "legOf leg = Inr x" ..
      from legOf_Inr [OF this] s obtain steps where "mapE stepOf ss = Inr steps"
        by auto
      from mapE_Inr_elem [OF this n] obtain y where "stepOf st = Inr y" ..
      from stepOf_Inr [OF this] h show False by blast
    qed
    with calculateEvRoute_cases [of "Responded True status (Some data)"] show ?thesis by blast
  qed
  have noroute: "calculateEvRoute (Responded True status (Some (JObj [(''routes'', JArr [])]))) = Inr None"
    by (simp add: calculateEvRoute_def calculateEvRoute_try_def normalizeData_def)
  from total caught rejected notok nojson nolegs nosteps nomaneuver noroute
  show ?thesis by blast
qed

theorem calculateEvRoute_failures_return_null_witness:
  "calculateEvRoute (Responded True 200 (Some (routeWithLegs JUndefined))) = Inr None \<and>
   calculateEvRoute (Responded True 200 (Some (routeWithLegs (JArr [JObj []])))) = Inr None \<and>
   calculateEvRoute (Responded True 200
      (Some (routeWithLegs (JArr [JObj [(''steps'', JArr [JObj [(''distance'', JNum 5)]])]])))) = Inr None \<and>
   calculateEvRoute_try (Rejected :: json http_outcome) = Inl NetworkError \<and>
   calculateEvRoute (Rejected :: json http_outcome) = Inr None"
proof -
  have f: "firstRouteOf (routeWithLegs legs) = JObj [(''distance'', JNum 12000), (''legs'', legs)]" for legs
    by (simp add: firstRouteOf_def routeWithLegs_def)
  have a: "calculateEvRoute (Responded True 200 (Some (routeWithLegs JUndefined))) = Inr None"
    using calculateEvRoute_failures_return_null [of _ _ 200 _ "routeWithLegs JUndefined"]
    by (simp add: f)
  have b: "calculateEvRoute (Responded True 200 (Some (routeWithLegs (JArr [JObj []])))) = Inr None"
    using calculateEvRoute_failures_return_null
      [of _ _ 200 _ "routeWithLegs (JArr [JObj []])" "[JObj []]" "JObj []"]
    by (simp add: f)
  have c: "calculateEvRoute (Responded True 200
      (Some (routeWithLegs (JArr [JObj [(''steps'', JArr [JObj [(''distance'', JNum 5)]])]])))) = Inr None"
    using calculateEvRoute_failures_return_null
      [of _ _ 200 _ "routeWithLegs (JArr [JObj [(''steps'', JArr [JObj [(''distance'', JNum 5)]])]])"
        "[JObj [(''steps'', JArr [JObj [(''distance'', JNum 5)]])]]"
        "JObj [(''steps'', JArr [JObj [(''distance'', JNum 5)]])]"
        "[JObj [(''distance'', JNum 5)]]" "JObj [(''distance'', JNum 5)]"]
    by (simp add: f)
  have d: "calculateEvRoute_try (Rejected :: json http_outcome) = Inl NetworkError"
    by (simp add: calculateEvRoute_try_def)
  have e: "calculateEvRoute (Rejected :: json http_outcome) = Inr None"
    using calculateEvRoute_failures_return_null [of "Rejected :: json http_outcome" NetworkError] d
    by blast
  from a b c d e show ?thesis by blast
qed

section \<open>Lemmas on the station cache\<close>

lemma objSet_idem: "objSet k v (objSet k v c) = objSet k v c"
  by (induction c) auto

lemma map_of_objSet: "map_of (objSet k v c) k = Some v"
  by (induction c) auto

lemma spread_Nil: "spread a [] = a"
  by (simp add: spread_def)

lemma spread_Cons: "spread a ((k, v) # b) = spread (objSet k v a) b"
  by (simp add: spread_def)

lemma mergeStations_single:
  "mergeStations cl [s] c =
     (if map_of cl (cacheKeyOf s) = None then objSet (cacheKeyOf s) s c else c)"
  by (simp add: mergeStations_def newStationsOf_def addIfAbsent_def spread_Cons spread_Nil)

lemma mergeStations_double: "mergeStations cl [s, s] c = mergeStations cl [s] c"
  by (simp add: mergeStations_def newStationsOf_def addIfAbsent_def spread_Cons spread_Nil)

lemma keysOf_objSet: "keysOf (objSet k v c) = insert k (keysOf c)"
proof (induction c)
  case Nil
  show ?case by (simp add: keysOf_def)
next
  case (Cons kv c)
  obtain k' v' where kv: "kv = (k', v')" by (cases kv)
  show ?case
  proof (cases "k = k'")
    case True
    then show ?thesis by (simp add: kv keysOf_def)
  next
    case False
    have "keysOf (objSet k v (kv # c)) = insert k' (keysOf (objSet k v c))"
      using False by (simp add: kv keysOf_def)
    also have "\<dots> = insert k' (insert k (keysOf c))"
      by (simp only: Cons.IH)
    also have "\<dots> = insert k (keysOf (kv # c))"
      by (simp add: kv keysOf_def insert_commute)
    finally show ?thesis .
  qed
qed

lemma keysOf_spread: "keysOf (spread a b) = keysOf a \<union> keysOf b"
proof (induction b arbitrary: a)
  case Nil
  show ?case by (simp add: spread_Nil keysOf_def)
next
  case (Cons kv b)
  obtain k v where kv: "kv = (k, v)" by (cases kv)
  have "keysOf (spread a (kv # b)) = insert k (keysOf a) \<union> keysOf b"
    by (simp only: kv spread_Cons Cons.IH keysOf_objSet)
  also have "\<dots> = keysOf a \<union> keysOf (kv # b)"
    by (simp add: kv keysOf_def)
  finally show ?case .
qed

lemma absent_iff: "(map_of c k = None) = (k \<notin> keysOf c)"
  by (simp add: keysOf_def map_of_eq_None_iff)

lemma addIfAbsent_keys:
  "keysOf (fst (addIfAbsent cl acc st)) =
     (if cacheKeyOf st \<in> keysOf cl then keysOf (fst acc)
      else insert (cacheKeyOf st) (keysOf (fst acc)))"
  by (simp add: addIfAbsent_def absent_iff keysOf_objSet)

lemma addIfAbsent_flag:
  "snd (addIfAbsent cl acc st) = (snd acc \<or> cacheKeyOf st \<notin> keysOf cl)"
  by (simp add: addIfAbsent_def absent_iff)

lemma foldl_addIfAbsent_keys:
  "keysOf (fst (foldl (addIfAbsent cl) acc ss)) =
     keysOf (fst acc) \<union> (cacheKeyOf ` {st \<in> set ss. cacheKeyOf st \<notin> keysOf cl})"
proof (induction ss arbitrary: acc)
  case Nil
  show ?case by simp
next
  case (Cons st ss)
  have "keysOf (fst (foldl (addIfAbsent cl) acc (st # ss))) =
        keysOf (fst (addIfAbsent cl acc st)) \<union>
          (cacheKeyOf ` {st \<in> set ss. cacheKeyOf st \<notin> keysOf cl})"
    by (simp only: foldl_Cons Cons.IH)
  also have "\<dots> =
        keysOf (fst acc) \<union> (cacheKeyOf ` {x \<in> set (st # ss). cacheKeyOf x \<notin> keysOf cl})"
    unfolding addIfAbsent_keys by (cases "cacheKeyOf st \<in> keysOf cl") auto
  finally show ?case .
qed

lemma foldl_addIfAbsent_flag:
  "snd (foldl (addIfAbsent cl) acc ss) =
     (snd acc \<or> (\<exists>st \<in> set ss. cacheKeyOf st \<notin> keysOf cl))"
proof (induction ss arbitrary: acc)
  case Nil
  show ?case by simp
next
  case (Cons st ss)
  have "snd (foldl (addIfAbsent cl) acc (st # ss)) =
        (snd (addIfAbsent cl acc st) \<or> (\<exists>st \<in> set ss. cacheKeyOf st \<notin> keysOf cl))"
    by (simp only: foldl_Cons Cons.IH)
  then show ?case
    unfolding addIfAbsent_flag by auto
qed

text \<open>The keys after a merge: those before, and those of the stations new to the closure.\<close>

lemma keysOf_mergeStations:
  "keysOf (mergeStations cl ss c) =
     keysOf c \<union> (cacheKeyOf ` {st \<in> set ss. cacheKeyOf st \<notin> keysOf cl})"
proof -
  obtain n u where nu: "newStationsOf cl ss = (n, u)" by (cases "newStationsOf cl ss")
  have n: "keysOf n = cacheKeyOf ` {st \<in> set ss. cacheKeyOf st \<notin> keysOf cl}"
    using foldl_addIfAbsent_keys [of cl "([], False)" ss] nu
    by (simp add: newStationsOf_def keysOf_def)
  have u: "u = (\<exists>st \<in> set ss. cacheKeyOf st \<notin> keysOf cl)"
    using foldl_addIfAbsent_flag [of cl "([], False)" ss] nu
    by (simp add: newStationsOf_def)
  show ?thesis
  proof (cases u)
    case True
    then show ?thesis by (simp add: mergeStations_def nu keysOf_spread n)
  next
    case False
    with u have e: "{st \<in> set ss. cacheKeyOf st \<notin> keysOf cl} = {}" by blast
    show ?thesis unfolding e using False by (simp add: mergeStations_def nu)
  qed
qed

text \<open>
  Where the first write wins: a merge whose closure holds the cache it writes to keeps
  every entry of that cache.
\<close>

lemma map_of_objSet_other: "k \<noteq> k' \<Longrightarrow> map_of (objSet k' v c) k = map_of c k"
  by (induction c) auto

lemma map_of_spread_other: "k \<notin> keysOf b \<Longrightarrow> map_of (spread a b) k = map_of a k"
proof (induction b arbitrary: a)
  case Nil
  show ?case by (simp add: spread_Nil)
next
  case (Cons kv b)
  obtain k' v' where kv: "kv = (k', v')" by (cases kv)
  from Cons.prems have ne: "k \<noteq> k'" and nb: "k \<notin> keysOf b"
    by (simp_all add: kv keysOf_def)
  have "map_of (spread a (kv # b)) k = map_of (spread (objSet k' v' a) b) k"
    by (simp only: kv spread_Cons)
  also have "\<dots> = map_of (objSet k' v' a) k"
    by (rule Cons.IH [OF nb])
  also have "\<dots> = map_of a k"
    by (rule map_of_objSet_other [OF ne])
  finally show ?case .
qed

lemma fresh_merge_keeps_entries:
  assumes "map_of c k = Some v"
  shows "map_of (mergeStations c ss c) k = Some v"
proof -
  obtain n u where nu: "newStationsOf c ss = (n, u)" by (cases "newStationsOf c ss")
  have "keysOf n = cacheKeyOf ` {st \<in> set ss. cacheKeyOf st \<notin> keysOf c}"
    using foldl_addIfAbsent_keys [of c "([], False)" ss] nu
    by (simp add: newStationsOf_def keysOf_def)
  moreover from assms have "k \<in> keysOf c"
    using absent_iff [of c k] by simp
  ultimately have "k \<notin> keysOf n" by auto
  then have "map_of (spread c n) k = map_of c k"
    by (rule map_of_spread_other)
  with assms show ?thesis
    by (simp add: mergeStations_def nu)
qed

lemma cacheKeyOf_stationA: "cacheKeyOf stationA = ''A_40.712800,-74.006000''"
  by (simp add: cacheKeyOf_def locationHashOf_def stationA_def toFixed6_def scaled6_def
      fraction6_def showNat.simps digitChar_def)

lemma cacheKeyOf_stationA_later: "cacheKeyOf stationA_later = ''A_40.712800,-74.006000''"
  by (simp add: cacheKeyOf_def locationHashOf_def stationA_later_def toFixed6_def scaled6_def
      fraction6_def showNat.simps digitChar_def)

section \<open>Lemmas on MapWrapper\<close>

lemma cache_fetchStations: "stationsCache (fetchStations p a b r i s) = stationsCache s"
  by (simp add: fetchStations_def startFetch_def Let_def)

lemma cache_mountEffect: "stationsCache (mountEffect p s) = stationsCache s"
  by (simp add: mountEffect_def cache_fetchStations)

text \<open>The cache after an answer with stations is the merge of lines 94 to 117.\<close>

lemma cache_fetchCompleted:
  "stationsCache (fetchCompleted p call (Responded True status (Some (StationsBody ss))) s) =
     mergeStations (fc_stationsCache call) ss (stationsCache s)"
proof -
  obtain n u where nu: "newStationsOf (fc_stationsCache call) ss = (n, u)"
    by (cases "newStationsOf (fc_stationsCache call) ss")
  show ?thesis
    by (simp add: fetchCompleted_def fetchChargingStations_def fetchChargingStations_try_def
        mergeStations_def nu cache_mountEffect)
qed

lemma cache_respond:
  "i < length (inFlight s) \<Longrightarrow>
   stationsCache (respond p i (Responded True status (Some (StationsBody ss))) s) =
     mergeStations (fc_stationsCache (inFlight s ! i)) ss (stationsCache s)"
  by (simp add: respond_def cache_fetchCompleted)

lemma older_fetchStations: "closuresOlder s \<Longrightarrow> closuresOlder (fetchStations p a b r i s)"
  by (auto simp: closuresOlder_def fetchStations_def startFetch_def Let_def)

lemma older_mountEffect: "closuresOlder s \<Longrightarrow> closuresOlder (mountEffect p s)"
  by (simp add: mountEffect_def older_fetchStations)

lemma older_handleMapMove: "closuresOlder s \<Longrightarrow> closuresOlder (handleMapMove p c z s)"
proof -
  assume a: "closuresOlder s"
  then have "closuresOlder (s\<lparr>mapCenter := c, mapZoom := z\<rparr>)"
    by (simp add: closuresOlder_def)
  then show ?thesis
    by (simp add: handleMapMove_def Let_def older_fetchStations)
qed

lemma older_elapse: "closuresOlder s \<Longrightarrow> closuresOlder (elapse dt s)"
  by (auto simp: closuresOlder_def elapse_def startFetch_def split: option.splits)

lemma older_grow:
  assumes "closuresOlder s" "keysOf (stationsCache s) \<subseteq> keysOf c"
  shows "closuresOlder (s\<lparr>stationsCache := c\<rparr>)"
  using assms by (fastforce simp: closuresOlder_def)

lemma older_drop:
  assumes "closuresOlder s"
  shows "closuresOlder (s\<lparr>inFlight := take i (inFlight s) @ drop (Suc i) (inFlight s)\<rparr>)"
  using assms by (auto simp: closuresOlder_def dest: in_set_takeD in_set_dropD)

lemma older_fetchCompleted:
  "closuresOlder s \<Longrightarrow> closuresOlder (fetchCompleted p call outcome s)"
proof -
  assume a: "closuresOlder s"
  have e: "closuresOlder (s\<lparr>error := m\<rparr>)" for m
    using a by (simp add: closuresOlder_def)
  have g: "closuresOlder (s\<lparr>stationsCache := spread (stationsCache s) n\<rparr>)" for n
    by (rule older_grow [OF a]) (simp add: keysOf_spread)
  show ?thesis
    by (auto simp: fetchCompleted_def a e g older_mountEffect
        split: stations_body.splits prod.splits)
qed

lemma older_respond: "closuresOlder s \<Longrightarrow> closuresOlder (respond p i outcome s)"
  by (simp add: respond_def older_fetchCompleted older_drop)

lemma older_step: "closuresOlder s \<Longrightarrow> closuresOlder (step p s ev)"
  by (cases ev) (simp_all add: older_handleMapMove older_elapse older_respond)

lemma older_run: "closuresOlder s \<Longrightarrow> closuresOlder (run p s evs)"
  unfolding run_def by (induction evs arbitrary: s) (simp_all add: older_step)

lemma older_mount: "closuresOlder (mount p)"
  unfolding mount_def by (rule older_mountEffect) (simp add: closuresOlder_def)

text \<open>The states of the sessions used below.\<close>

lemma cityProps_simps:
  "useRealData cityProps"
  "searchRadius cityProps = 50"
  "centerLat cityProps = 40.73"
  "centerLng cityProps = -74"
  "zoom cityProps = 12"
  by (simp_all add: cityProps_def)

lemma mounted:
  "mount cityProps =
     \<lparr> stationsCache = [], error = None,
       mapCenter = \<lparr> lat = 40.73, lng = -74 \<rparr>, mapZoom = 12,
       debounceTimer = None,
       inFlight = [\<lparr> fc_lat = 40.73, fc_lng = -74, fc_radius = 50,
                     fc_stationsCache = [] \<rparr>],
       issued = [(40.73, -74, 50)], now = 0 \<rparr>"
  by (simp add: mount_def mountEffect_def fetchStations_def startFetch_def cityProps_simps
      Let_def)

lemma panned:
  "run cityProps (mount cityProps) [MapMove pan1 15, Elapse 800] =
     \<lparr> stationsCache = [], error = None, mapCenter = pan1, mapZoom = 15,
       debounceTimer = None,
       inFlight = [\<lparr> fc_lat = 40.73, fc_lng = -74, fc_radius = 50,
                     fc_stationsCache = [] \<rparr>,
                   \<lparr> fc_lat = 40.75, fc_lng = -74, fc_radius = 50, fc_stationsCache = [] \<rparr>],
       issued = [(40.73, -74, 50), (40.75, -74, 50)], now = 800 \<rparr>"
  by (simp add: run_def mounted handleMapMove_def fetchStations_def startFetch_def elapse_def
      cityProps_simps pan1_def Let_def)

lemma run_snoc: "run p s (evs @ [ev]) = step p (run p s evs) ev"
  by (simp add: run_def)

lemma panned_twice:
  "run cityProps (mount cityProps) [MapMove pan1 15, Elapse 800, MapMove pan2 15] =
     \<lparr> stationsCache = [], error = None, mapCenter = pan2, mapZoom = 15,
       debounceTimer =
         Some \<lparr> tm_deadline = 1600,
                tm_call = \<lparr> fc_lat = 40.8, fc_lng = -74, fc_radius = 50,
                             fc_stationsCache = [] \<rparr> \<rparr>,
       inFlight = [\<lparr> fc_lat = 40.73, fc_lng = -74, fc_radius = 50,
                     fc_stationsCache = [] \<rparr>,
                   \<lparr> fc_lat = 40.75, fc_lng = -74, fc_radius = 50, fc_stationsCache = [] \<rparr>],
       issued = [(40.73, -74, 50), (40.75, -74, 50)], now = 800 \<rparr>"
proof -
  have "run cityProps (mount cityProps) [MapMove pan1 15, Elapse 800, MapMove pan2 15] =
        step cityProps (run cityProps (mount cityProps) [MapMove pan1 15, Elapse 800])
          (MapMove pan2 15)"
    using run_snoc [of cityProps "mount cityProps" "[MapMove pan1 15, Elapse 800]"
        "MapMove pan2 15"]
    by simp
  also have "\<dots> = handleMapMove cityProps pan2 15
      (run cityProps (mount cityProps) [MapMove pan1 15, Elapse 800])"
    by simp
  finally show ?thesis
    unfolding panned
    by (simp add: handleMapMove_def fetchStations_def cityProps_simps pan2_def Let_def)
qed

lemma newStationsOf_single:
  "newStationsOf [] [s] = ([(cacheKeyOf s, s)], True)"
  by (simp add: newStationsOf_def addIfAbsent_def)

lemma first_answer:
  "run cityProps (mount cityProps)
     [MapMove pan1 15, Elapse 800, Response 0 (stationsOk [stationA])] =
     \<lparr> stationsCache = [(''A_40.712800,-74.006000'', stationA)], error = None,
       mapCenter = pan1, mapZoom = 15, debounceTimer = None,
       inFlight = [\<lparr> fc_lat = 40.75, fc_lng = -74, fc_radius = 50, fc_stationsCache = [] \<rparr>,
                   \<lparr> fc_lat = 40.73, fc_lng = -74, fc_radius = 50,
                     fc_stationsCache = [(''A_40.712800,-74.006000'', stationA)] \<rparr>],
       issued = [(40.73, -74, 50), (40.75, -74, 50), (40.73, -74, 50)],
       now = 800 \<rparr>"
proof -
  have "run cityProps (mount cityProps)
          [MapMove pan1 15, Elapse 800, Response 0 (stationsOk [stationA])] =
        step cityProps (run cityProps (mount cityProps) [MapMove pan1 15, Elapse 800])
          (Response 0 (stationsOk [stationA]))"
    using run_snoc [of cityProps "mount cityProps" "[MapMove pan1 15, Elapse 800]"
        "Response 0 (stationsOk [stationA])"]
    by simp
  also have "\<dots> = respond cityProps 0 (stationsOk [stationA])
      (run cityProps (mount cityProps) [MapMove pan1 15, Elapse 800])"
    by simp
  finally show ?thesis
    unfolding panned
    by (simp add: respond_def stationsOk_def fetchCompleted_def fetchChargingStations_def
        fetchChargingStations_try_def newStationsOf_single cacheKeyOf_stationA spread_Cons
        spread_Nil mountEffect_def fetchStations_def startFetch_def cityProps_simps Let_def)
qed

lemma second_answer:
  "stationsCache (run cityProps (mount cityProps)
     [MapMove pan1 15, Elapse 800, Response 0 (stationsOk [stationA]),
      Response 0 (stationsOk [stationA_later])]) =
   [(''A_40.712800,-74.006000'', stationA_later)]"
proof -
  have "run cityProps (mount cityProps)
          [MapMove pan1 15, Elapse 800, Response 0 (stationsOk [stationA]),
           Response 0 (stationsOk [stationA_later])] =
        step cityProps
          (run cityProps (mount cityProps)
             [MapMove pan1 15, Elapse 800, Response 0 (stationsOk [stationA])])
          (Response 0 (stationsOk [stationA_later]))"
    using run_snoc [of cityProps "mount cityProps"
        "[MapMove pan1 15, Elapse 800, Response 0 (stationsOk [stationA])]"
        "Response 0 (stationsOk [stationA_later])"]
    by simp
  also have "\<dots> = respond cityProps 0 (stationsOk [stationA_later])
      (run cityProps (mount cityProps)
         [MapMove pan1 15, Elapse 800, Response 0 (stationsOk [stationA])])"
    by simp
  finally show ?thesis
    unfolding first_answer
    by (simp add: stationsOk_def cache_respond mergeStations_single cacheKeyOf_stationA_later)
qed

lemma cacheKeyOf_stationA_renamed: "cacheKeyOf stationA_renamed = ''A_40.712800,-74.006000''"
  by (simp add: cacheKeyOf_def locationHashOf_def stationA_renamed_def toFixed6_def scaled6_def
      fraction6_def showNat.simps digitChar_def)

lemma zoomed:
  "run cityProps (mount cityProps) [MapMove home 13, Elapse 800] =
     \<lparr> stationsCache = [], error = None, mapCenter = home, mapZoom = 13,
       debounceTimer = None,
       inFlight = [\<lparr> fc_lat = 40.73, fc_lng = -74, fc_radius = 50, fc_stationsCache = [] \<rparr>,
                   \<lparr> fc_lat = 40.73, fc_lng = -74, fc_radius = 50, fc_stationsCache = [] \<rparr>],
       issued = [(40.73, -74, 50), (40.73, -74, 50)], now = 800 \<rparr>"
  by (simp add: run_def mounted handleMapMove_def fetchStations_def startFetch_def elapse_def
      cityProps_simps home_def Let_def)

lemma zoomed_first_answer:
  "run cityProps (mount cityProps)
     [MapMove home 13, Elapse 800, Response 0 (stationsOk [stationA])] =
     \<lparr> stationsCache = [(''A_40.712800,-74.006000'', stationA)], error = None,
       mapCenter = home, mapZoom = 13, debounceTimer = None,
       inFlight = [\<lparr> fc_lat = 40.73, fc_lng = -74, fc_radius = 50, fc_stationsCache = [] \<rparr>,
                   \<lparr> fc_lat = 40.73, fc_lng = -74, fc_radius = 50,
                     fc_stationsCache = [(''A_40.712800,-74.006000'', stationA)] \<rparr>],
       issued = [(40.73, -74, 50), (40.73, -74, 50), (40.73, -74, 50)],
       now = 800 \<rparr>"
proof -
  have "run cityProps (mount cityProps)
          [MapMove home 13, Elapse 800, Response 0 (stationsOk [stationA])] =
        step cityProps (run cityProps (mount cityProps) [MapMove home 13, Elapse 800])
          (Response 0 (stationsOk [stationA]))"
    using run_snoc [of cityProps "mount cityProps" "[MapMove home 13, Elapse 800]"
        "Response 0 (stationsOk [stationA])"]
    by simp
  also have "\<dots> = respond cityProps 0 (stationsOk [stationA])
      (run cityProps (mount cityProps) [MapMove home 13, Elapse 800])"
    by simp
  finally show ?thesis
    unfolding zoomed
    by (simp add: respond_def stationsOk_def fetchCompleted_def fetchChargingStations_def
        fetchChargingStations_try_def newStationsOf_single cacheKeyOf_stationA spread_Cons
        spread_Nil mountEffect_def fetchStations_def startFetch_def cityProps_simps Let_def)
qed

lemma zoomed_merged_once:
  "run cityProps (mount cityProps)
     [MapMove home 13, Elapse 800, Response 0 (stationsOk [stationA]),
      Response 1 (stationsOk [stationA_renamed])] =
     \<lparr> stationsCache = [(''A_40.712800,-74.006000'', stationA)], error = None,
       mapCenter = home, mapZoom = 13, debounceTimer = None,
       inFlight = [\<lparr> fc_lat = 40.73, fc_lng = -74, fc_radius = 50, fc_stationsCache = [] \<rparr>],
       issued = [(40.73, -74, 50), (40.73, -74, 50), (40.73, -74, 50)],
       now = 800 \<rparr>"
proof -
  have "run cityProps (mount cityProps)
          [MapMove home 13, Elapse 800, Response 0 (stationsOk [stationA]),
           Response 1 (stationsOk [stationA_renamed])] =
        step cityProps
          (run cityProps (mount cityProps)
             [MapMove home 13, Elapse 800, Response 0 (stationsOk [stationA])])
          (Response 1 (stationsOk [stationA_renamed]))"
    using run_snoc [of cityProps "mount cityProps"
        "[MapMove home 13, Elapse 800, Response 0 (stationsOk [stationA])]"
        "Response 1 (stationsOk [stationA_renamed])"]
    by simp
  also have "\<dots> = respond cityProps 1 (stationsOk [stationA_renamed])
      (run cityProps (mount cityProps)
         [MapMove home 13, Elapse 800, Response 0 (stationsOk [stationA])])"
    by simp
  finally show ?thesis
    unfolding zoomed_first_answer
    by (simp add: respond_def stationsOk_def fetchCompleted_def fetchChargingStations_def
        fetchChargingStations_try_def newStationsOf_def addIfAbsent_def
        cacheKeyOf_stationA_renamed)
qed

lemma zoomed_merged_twice:
  "stationsCache (run cityProps (mount cityProps)
     [MapMove home 13, Elapse 800, Response 0 (stationsOk [stationA]),
      Response 1 (stationsOk [stationA_renamed]),
      Response 0 (stationsOk [stationA_renamed])]) =
   [(''A_40.712800,-74.006000'', stationA_renamed)]"
proof -
  have "run cityProps (mount cityProps)
          [MapMove home 13, Elapse 800, Response 0 (stationsOk [stationA]),
           Response 1 (stationsOk [stationA_renamed]),
           Response 0 (stationsOk [stationA_renamed])] =
        step cityProps
          (run cityProps (mount cityProps)
             [MapMove home 13, Elapse 800, Response 0 (stationsOk [stationA]),
              Response 1 (stationsOk [stationA_renamed])])
          (Response 0 (stationsOk [stationA_renamed]))"
    using run_snoc [of cityProps "mount cityProps"
        "[MapMove home 13, Elapse 800, Response 0 (stationsOk [stationA]),
          Response 1 (stationsOk [stationA_renamed])]"
        "Response 0 (stationsOk [stationA_renamed])"]
    by simp
  also have "\<dots> = respond cityProps 0 (stationsOk [stationA_renamed])
      (run cityProps (mount cityProps)
         [MapMove home 13, Elapse 800, Response 0 (stationsOk [stationA]),
          Response 1 (stationsOk [stationA_renamed])])"
    by simp
  finally show ?thesis
    unfolding zoomed_merged_once
    by (simp add: stationsOk_def cache_respond mergeStations_single cacheKeyOf_stationA_renamed)
qed

text \<open>A failed request changes nothing but the list of requests in flight.\<close>

lemma fetchCompleted_failed:
  assumes "outcome = Rejected \<or> (\<exists>status body. outcome = Responded False status body)"
  shows "fetchCompleted p call outcome s = s"
proof -
  from assms have "fetchChargingStations outcome = StationsBody []"
    by (auto simp: fetchChargingStations_def fetchChargingStations_try_def split: option.splits)
  then show ?thesis
    by (simp add: fetchCompleted_def newStationsOf_def)
qed

lemma respond_failed:
  assumes "outcome = Rejected \<or> (\<exists>status body. outcome = Responded False status body)"
  shows "stationsCache (respond p i outcome s) = stationsCache s"
    and "error (respond p i outcome s) = error s"
    and "issued (respond p i outcome s) = issued s"
    and "debounceTimer (respond p i outcome s) = debounceTimer s"
  by (simp_all add: respond_def fetchCompleted_failed [OF assms])

text \<open>No event removes a key from the cache.\<close>

lemma keys_fetchCompleted:
  "keysOf (stationsCache s) \<subseteq> keysOf (stationsCache (fetchCompleted p call outcome s))"
proof (cases "fetchChargingStations outcome")
  case MalformedBody
  then show ?thesis by (simp add: fetchCompleted_def)
next
  case (StationsBody ss)
  obtain n u where nu: "newStationsOf (fc_stationsCache call) ss = (n, u)"
    by (cases "newStationsOf (fc_stationsCache call) ss")
  show ?thesis
    by (simp add: fetchCompleted_def StationsBody nu cache_mountEffect keysOf_spread)
qed

lemma keys_step: "keysOf (stationsCache s) \<subseteq> keysOf (stationsCache (step p s ev))"
proof (cases ev)
  case (MapMove c z)
  then show ?thesis by (simp add: handleMapMove_def Let_def cache_fetchStations)
next
  case (Elapse dt)
  then show ?thesis by (simp add: elapse_def startFetch_def split: option.splits)
next
  case (Response i outcome)
  show ?thesis
  proof (cases "i < length (inFlight s)")
    case True
    let ?s' = "s\<lparr>inFlight := take i (inFlight s) @ drop (Suc i) (inFlight s)\<rparr>"
    have "keysOf (stationsCache ?s') \<subseteq>
          keysOf (stationsCache (fetchCompleted p (inFlight s ! i) outcome ?s'))"
      by (rule keys_fetchCompleted)
    with True show ?thesis by (simp add: Response respond_def)
  next
    case False
    then show ?thesis by (simp add: Response respond_def)
  qed
qed







section \<open>The claims on MapWrapper\<close>

text \<open>
  Claim C2, as the code has it. The claim says that at most one fetch is in flight and
  that the answer to a superseded viewport is never merged. The code keeps no record of
  the requests in flight. A viewport change leaves them as they are, whatever the zoom:
  it only replaces the one pending debounce timer. A timer that fires adds its request
  to those in flight. And every answer is merged when it arrives, whatever has happened
  since the request was made: in every state that a session reaches, after an answer
  with stations to any request in flight each of these stations has its key in the
  cache.
\<close>

theorem fetches_overlap_and_every_answer_is_merged:
  "inFlight (handleMapMove p newCenter newZoom s) = inFlight s \<and>
   (debounceTimer s = Some t \<and> tm_deadline t \<le> now s + dt \<longrightarrow>
      inFlight (elapse dt s) = inFlight s @ [tm_call t]) \<and>
   (s = run p (mount p) evs \<and> i < length (inFlight s) \<and> st \<in> set fetchedStations \<longrightarrow>
      cacheKeyOf st \<in>
        keysOf (stationsCache
          (respond p i (Responded True status (Some (StationsBody fetchedStations))) s)))"
proof -
  have a: "inFlight (handleMapMove p newCenter newZoom s) = inFlight s"
    by (simp add: handleMapMove_def fetchStations_def Let_def)
  have b: "inFlight (elapse dt s) = inFlight s @ [tm_call t]"
    if "debounceTimer s = Some t" and "tm_deadline t \<le> now s + dt"
    using that by (simp add: elapse_def startFetch_def)
  have c: "cacheKeyOf st \<in>
        keysOf (stationsCache
          (respond p i (Responded True status (Some (StationsBody fetchedStations))) s))"
    if r: "s = run p (mount p) evs" and i: "i < length (inFlight s)"
      and m: "st \<in> set fetchedStations"
  proof -
    have "closuresOlder s" using r by (simp add: older_run older_mount)
    then have "keysOf (fc_stationsCache (inFlight s ! i)) \<subseteq> keysOf (stationsCache s)"
      using i by (simp add: closuresOlder_def)
    then show ?thesis
      using i m by (auto simp: cache_respond keysOf_mergeStations)
  qed
  from a b c show ?thesis by blast
qed

theorem fetches_overlap_and_every_answer_is_merged_witness:
  "inFlight (run cityProps (mount cityProps) [MapMove pan1 15, Elapse 800, MapMove pan2 15]) =
     [\<lparr> fc_lat = 40.73, fc_lng = -74, fc_radius = 50, fc_stationsCache = [] \<rparr>,
      \<lparr> fc_lat = 40.75, fc_lng = -74, fc_radius = 50, fc_stationsCache = [] \<rparr>] \<and>
   inFlight (elapse 800
     (run cityProps (mount cityProps) [MapMove pan1 15, Elapse 800, MapMove pan2 15])) =
     [\<lparr> fc_lat = 40.73, fc_lng = -74, fc_radius = 50, fc_stationsCache = [] \<rparr>,
      \<lparr> fc_lat = 40.75, fc_lng = -74, fc_radius = 50, fc_stationsCache = [] \<rparr>,
      \<lparr> fc_lat = 40.8, fc_lng = -74, fc_radius = 50, fc_stationsCache = [] \<rparr>] \<and>
   cacheKeyOf stationA \<in>
     keysOf (stationsCache
       (respond cityProps 1 (Responded True 200 (Some (StationsBody [stationA])))
          (run cityProps (mount cityProps) [MapMove pan1 15, Elapse 800, MapMove pan2 15])))"
proof -
  let ?s = "run cityProps (mount cityProps) [MapMove pan1 15, Elapse 800, MapMove pan2 15]"
  let ?t = "\<lparr> tm_deadline = 1600,
              tm_call = \<lparr> fc_lat = 40.8, fc_lng = -74, fc_radius = 50,
                           fc_stationsCache = [] \<rparr> \<rparr>"
  note inst = fetches_overlap_and_every_answer_is_merged
    [of cityProps pan2 15 "?s" "?t" 800 "[MapMove pan1 15, Elapse 800, MapMove pan2 15]" 1
      stationA "[stationA]" 200]
  have a: "inFlight ?s =
     [\<lparr> fc_lat = 40.73, fc_lng = -74, fc_radius = 50, fc_stationsCache = [] \<rparr>,
      \<lparr> fc_lat = 40.75, fc_lng = -74, fc_radius = 50, fc_stationsCache = [] \<rparr>]"
    by (simp add: panned_twice)
  have t: "debounceTimer ?s = Some ?t \<and> tm_deadline ?t \<le> now ?s + 800"
    by (simp add: panned_twice)
  with inst have b: "inFlight (elapse 800 ?s) = inFlight ?s @ [tm_call ?t]"
    by blast
  have "?s = run cityProps (mount cityProps) [MapMove pan1 15, Elapse 800, MapMove pan2 15]
        \<and> 1 < length (inFlight ?s) \<and> stationA \<in> set [stationA]"
    by (simp add: a)
  with inst have c: "cacheKeyOf stationA \<in>
     keysOf (stationsCache
       (respond cityProps 1 (Responded True 200 (Some (StationsBody [stationA]))) ?s))"
    by blast
  from a b c show ?thesis by simp
qed

text \<open>
  Claim C2 as stated fails on this session: the fetch of the mount is still in flight
  when the timer of a pan fires, so two fetches are in flight; the map is panned again,
  and the answer to the first pan, now superseded, is merged into the cache.
\<close>

theorem two_fetches_in_flight_and_stale_answer_merged:
  "length (inFlight (run cityProps (mount cityProps) [MapMove pan1 15, Elapse 800])) = 2 \<and>
   stationsCache (run cityProps (mount cityProps)
     [MapMove pan1 15, Elapse 800, MapMove pan2 15]) = [] \<and>
   stationsCache (respond cityProps 1 (stationsOk [stationA])
     (run cityProps (mount cityProps) [MapMove pan1 15, Elapse 800, MapMove pan2 15])) =
     [(''A_40.712800,-74.006000'', stationA)]"
proof -
  have a: "length (inFlight (run cityProps (mount cityProps) [MapMove pan1 15, Elapse 800])) = 2"
    by (simp add: panned)
  have b: "stationsCache (run cityProps (mount cityProps)
     [MapMove pan1 15, Elapse 800, MapMove pan2 15]) = []"
    by (simp add: panned_twice)
  have c: "stationsCache (respond cityProps 1 (stationsOk [stationA])
     (run cityProps (mount cityProps) [MapMove pan1 15, Elapse 800, MapMove pan2 15])) =
     [(''A_40.712800,-74.006000'', stationA)]"
    unfolding panned_twice
    by (simp add: stationsOk_def cache_respond mergeStations_single cacheKeyOf_stationA)
  from a b c show ?thesis by blast
qed

text \<open>
  Claim C3, as the code has it. The claim says that a viewport change below zoom 12
  cancels the pending debounce timer. In the code such a change only records the new
  centre and zoom: it issues no fetch, arms no timer and cancels none, so a timer armed
  before it still fires at its deadline and fetches.
\<close>

theorem low_zoom_move_leaves_timer:
  assumes "newZoom < 12"
  shows "handleMapMove p newCenter newZoom s = s\<lparr>mapCenter := newCenter, mapZoom := newZoom\<rparr> \<and>
         (debounceTimer s = Some t \<and> tm_deadline t \<le> now s + dt \<longrightarrow>
            issued (elapse dt (handleMapMove p newCenter newZoom s)) =
              issued s @ [(fc_lat (tm_call t), fc_lng (tm_call t), fc_radius (tm_call t))])"
  using assms by (simp add: handleMapMove_def elapse_def startFetch_def Let_def)

theorem low_zoom_move_leaves_timer_witness:
  "(10::real) < 12 \<and>
   debounceTimer (handleMapMove cityProps pan2 10
      (elapse 200 (handleMapMove cityProps pan1 15 (mount cityProps)))) =
     Some \<lparr> tm_deadline = 800,
            tm_call = \<lparr> fc_lat = 40.75, fc_lng = -74, fc_radius = 50, fc_stationsCache = [] \<rparr> \<rparr> \<and>
   issued (elapse 600 (handleMapMove cityProps pan2 10
      (elapse 200 (handleMapMove cityProps pan1 15 (mount cityProps))))) =
     [(40.73, -74, 50), (40.75, -74, 50)]"
proof -
  let ?s = "elapse 200 (handleMapMove cityProps pan1 15 (mount cityProps))"
  let ?t = "\<lparr> tm_deadline = 800,
              tm_call = \<lparr> fc_lat = 40.75, fc_lng = -74, fc_radius = 50,
                           fc_stationsCache = [] \<rparr> \<rparr>"
  have z: "(10::real) < 12" by simp
  have s: "?s = \<lparr> stationsCache = [], error = None, mapCenter = pan1, mapZoom = 15,
       debounceTimer = Some ?t,
       inFlight = [\<lparr> fc_lat = 40.73, fc_lng = -74, fc_radius = 50,
                     fc_stationsCache = [] \<rparr>],
       issued = [(40.73, -74, 50)], now = 200 \<rparr>"
    unfolding mounted
    by (simp add: handleMapMove_def fetchStations_def elapse_def cityProps_simps pan1_def
        Let_def)
  note inst = low_zoom_move_leaves_timer [OF z, of cityProps pan2 "?s" "?t" 600]
  from inst have m: "handleMapMove cityProps pan2 10 ?s = ?s\<lparr>mapCenter := pan2, mapZoom := 10\<rparr>"
    by (rule conjunct1)
  have d: "debounceTimer (handleMapMove cityProps pan2 10 ?s) = Some ?t"
    unfolding m by (simp add: s)
  have "debounceTimer ?s = Some ?t \<and> tm_deadline ?t \<le> now ?s + 600"
    by (simp add: s)
  with inst have "issued (elapse 600 (handleMapMove cityProps pan2 10 ?s)) =
      issued ?s @ [(fc_lat (tm_call ?t), fc_lng (tm_call ?t), fc_radius (tm_call ?t))]"
    by blast
  then have i: "issued (elapse 600 (handleMapMove cityProps pan2 10 ?s)) =
      [(40.73, -74, 50), (40.75, -74, 50)]"
    by (simp add: s)
  from z d i show ?thesis by blast
qed

text \<open>
  Claim C3 as stated fails on its own scenario: a pan at zoom 15 arms the timer, 200 ms
  later the map is at zoom 10, and 600 ms after that the armed fetch is issued all the
  same, for the centre of the first pan.
\<close>

theorem armed_fetch_fires_after_low_zoom_move:
  "debounceTimer (run cityProps (mount cityProps)
      [MapMove pan1 15, Elapse 200, MapMove pan2 10]) \<noteq> None \<and>
   issued (run cityProps (mount cityProps) [MapMove pan1 15, Elapse 200, MapMove pan2 10]) =
     [(40.73, -74, 50)] \<and>
   issued (run cityProps (mount cityProps)
      [MapMove pan1 15, Elapse 200, MapMove pan2 10, Elapse 600]) =
     [(40.73, -74, 50), (40.75, -74, 50)]"
  unfolding mounted
  by (simp add: run_def handleMapMove_def fetchStations_def elapse_def startFetch_def
      cityProps_simps pan1_def pan2_def Let_def)




text \<open>
  Claim C5, on the failing input. The claim says that an error of the station query
  surfaces exactly one error message. \<^verbatim>\<open>fetchChargingStations\<close> catches a rejected
  request and a response that is not ok and returns the empty array, so the \<^verbatim>\<open>catch\<close>
  of \<^verbatim>\<open>fetchStations\<close> that sets the message is never reached: after the failed fetch of
  the mount the error message is still \<^verbatim>\<open>null\<close>. In every state, the answer to a failed
  request leaves the error message as it was; it also leaves the cache unchanged and
  issues no further fetch, as the claim says.
\<close>

theorem failed_fetch_surfaces_no_error:
  "fetchChargingStations Rejected = StationsBody [] \<and>
   fetchChargingStations (Responded False status body) = StationsBody [] \<and>
   error (run cityProps (mount cityProps) [Response 0 Rejected]) = None \<and>
   error (run cityProps (mount cityProps) [Response 0 (Responded False 500 None)]) = None \<and>
   error (respond p i Rejected s) = error s \<and>
   error (respond p i (Responded False status body) s) = error s \<and>
   stationsCache (respond p i Rejected s) = stationsCache s \<and>
   stationsCache (respond p i (Responded False status body) s) = stationsCache s \<and>
   issued (respond p i Rejected s) = issued s \<and>
   issued (respond p i (Responded False status body) s) = issued s"
proof -
  have r: "Rejected = Rejected \<or>
      (\<exists>status body. (Rejected :: stations_body http_outcome) = Responded False status body)"
    by simp
  have f: "Responded False status body = Rejected \<or>
      (\<exists>status' body'. Responded False status body = Responded False status' body')"
    by simp
  have a: "fetchChargingStations Rejected = StationsBody []"
    by (simp add: fetchChargingStations_def fetchChargingStations_try_def)
  have b: "fetchChargingStations (Responded False status body) = StationsBody []"
    by (simp add: fetchChargingStations_def fetchChargingStations_try_def split: option.splits)
  have c: "error (run cityProps (mount cityProps) [Response 0 Rejected]) = None"
    by (simp add: run_def respond_failed(2) [OF r] mounted)
  have d: "error (run cityProps (mount cityProps) [Response 0 (Responded False 500 None)]) = None"
    using respond_failed(2) [of "Responded False 500 None" cityProps 0 "mount cityProps"]
    by (simp add: run_def mounted)
  from a b c d respond_failed [OF r, of p i s] respond_failed [OF f, of p i s]
  show ?thesis by simp
qed

text \<open>
  Where merging a station twice is merging it once: as two equal elements of one batch,
  whatever the cache and the closure; in two batches, whenever the second closure knows
  the key if the first one does, as it does when the answers arrive in the order of
  their requests; and so in two batches that each see the cache they write to. The
  batch of the specification, two stations with the id \<^verbatim>\<open>A\<close> and the same coordinates,
  merges into the empty cache as one entry, under the key \<^verbatim>\<open>A_40.712800,-74.006000\<close>.
\<close>

lemma merge_twice_is_merge_once:
  "mergeStations cl [s, s] c = mergeStations cl [s] c \<and>
   (map_of cl (cacheKeyOf s) = None \<or> map_of cl' (cacheKeyOf s) \<noteq> None \<longrightarrow>
      mergeStations cl' [s] (mergeStations cl [s] c) = mergeStations cl [s] c) \<and>
   mergeStations (mergeStations c [s] c) [s] (mergeStations c [s] c) = mergeStations c [s] c \<and>
   snapshot (mergeStations [] [stationA, stationA] []) = [stationA] \<and>
   map fst (mergeStations [] [stationA, stationA] []) = [''A_40.712800,-74.006000''] \<and>
   cacheKeyOf s = st_id s @ ''_'' @ toFixed6 (st_lat s) @ '','' @ toFixed6 (st_lng s)"
proof -
  have a: "mergeStations cl [s, s] c = mergeStations cl [s] c"
    by (rule mergeStations_double)
  have b: "mergeStations cl' [s] (mergeStations cl [s] c) = mergeStations cl [s] c"
    if "map_of cl (cacheKeyOf s) = None \<or> map_of cl' (cacheKeyOf s) \<noteq> None"
    using that by (auto simp: mergeStations_single objSet_idem)
  have c: "mergeStations (mergeStations c [s] c) [s] (mergeStations c [s] c) = mergeStations c [s] c"
    by (auto simp: mergeStations_single objSet_idem map_of_objSet)
  have d: "mergeStations [] [stationA, stationA] [] = [(''A_40.712800,-74.006000'', stationA)]"
    by (simp add: mergeStations_double mergeStations_single cacheKeyOf_stationA)
  have e: "cacheKeyOf s = st_id s @ ''_'' @ toFixed6 (st_lat s) @ '','' @ toFixed6 (st_lng s)"
    by (simp add: cacheKeyOf_def locationHashOf_def)
  from a b c d e show ?thesis by (simp add: snapshot_def)
qed

text \<open>
  Claim C6, on the failing input. The claim says that merging a station twice gives the
  snapshot that merging it once gives, in every state of the cache. In the code a merge
  tests the cache of its closure and writes to the cache of the moment, and these
  differ when fetches overlap. Here the map is zoomed without a pan while the fetch of
  the mount is in flight, so a second fetch for the same centre is requested while the
  cache is empty. The fetch of the mount is answered and stores the station. The
  provider renames the station. The answer to the third fetch, which the update of the
  cache has caused, brings the renamed station and leaves the snapshot as it is; the
  answer to the second fetch brings the renamed station again and replaces the entry.
  Two equal elements of one batch are merged as one (the batch of the specification
  gives one entry under the key \<^verbatim>\<open>A_40.712800,-74.006000\<close>), and so are two batches that
  see the cache they write to.
\<close>

theorem second_merge_of_station_changes_snapshot:
  "snapshot (stationsCache (run cityProps (mount cityProps)
     [MapMove home 13, Elapse 800, Response 0 (stationsOk [stationA])])) = [stationA] \<and>
   snapshot (stationsCache (run cityProps (mount cityProps)
     [MapMove home 13, Elapse 800, Response 0 (stationsOk [stationA]),
      Response 1 (stationsOk [stationA_renamed])])) = [stationA] \<and>
   snapshot (stationsCache (run cityProps (mount cityProps)
     [MapMove home 13, Elapse 800, Response 0 (stationsOk [stationA]),
      Response 1 (stationsOk [stationA_renamed]),
      Response 0 (stationsOk [stationA_renamed])])) = [stationA_renamed] \<and>
   stationA_renamed \<noteq> stationA \<and>
   mergeStations cl [s, s] c = mergeStations cl [s] c \<and>
   mergeStations (mergeStations c [s] c) [s] (mergeStations c [s] c) = mergeStations c [s] c \<and>
   snapshot (mergeStations [] [stationA, stationA] []) = [stationA] \<and>
   map fst (mergeStations [] [stationA, stationA] []) = [''A_40.712800,-74.006000'']"
proof -
  have n: "stationA_renamed \<noteq> stationA"
    by (simp add: stationA_renamed_def stationA_def)
  have a: "mergeStations cl [s, s] c = mergeStations cl [s] c"
    by (rule mergeStations_double)
  have c: "mergeStations (mergeStations c [s] c) [s] (mergeStations c [s] c) = mergeStations c [s] c"
    by (auto simp: mergeStations_single objSet_idem map_of_objSet)
  have d: "mergeStations [] [stationA, stationA] [] = [(''A_40.712800,-74.006000'', stationA)]"
    by (simp add: mergeStations_double mergeStations_single cacheKeyOf_stationA)
  have p1: "snapshot (stationsCache (run cityProps (mount cityProps)
     [MapMove home 13, Elapse 800, Response 0 (stationsOk [stationA])])) = [stationA]"
    unfolding zoomed_first_answer by (simp add: snapshot_def)
  have p2: "snapshot (stationsCache (run cityProps (mount cityProps)
     [MapMove home 13, Elapse 800, Response 0 (stationsOk [stationA]),
      Response 1 (stationsOk [stationA_renamed])])) = [stationA]"
    unfolding zoomed_merged_once by (simp add: snapshot_def)
  have p3: "snapshot (stationsCache (run cityProps (mount cityProps)
     [MapMove home 13, Elapse 800, Response 0 (stationsOk [stationA]),
      Response 1 (stationsOk [stationA_renamed]),
      Response 0 (stationsOk [stationA_renamed])])) = [stationA_renamed]"
    unfolding zoomed_merged_twice by (simp add: snapshot_def)
  have d': "snapshot (mergeStations [] [stationA, stationA] []) = [stationA] \<and>
   map fst (mergeStations [] [stationA, stationA] []) = [''A_40.712800,-74.006000'']"
    unfolding d by (simp add: snapshot_def)
  from p1 p2 p3 n a c d' show ?thesis
    by blast
qed

text \<open>
  Claim C7, on the failing input. The claim says that an entry of the cache is never
  overwritten. The test of line 105 reads the cache of the closure, the update of lines
  113 to 116 writes to the cache of the moment. Here the fetch of a pan is requested
  while the cache is empty; the fetch of the mount is answered first and stores the
  station; the answer to the pan brings the same station with another distance, finds
  its key absent from its closure and overwrites the entry. What the claim says of
  removal holds: no event takes a key out of the cache.
\<close>

theorem stale_closure_overwrites_entry:
  "stationsCache (run cityProps (mount cityProps)
     [MapMove pan1 15, Elapse 800, Response 0 (stationsOk [stationA])]) =
     [(''A_40.712800,-74.006000'', stationA)] \<and>
   stationsCache (run cityProps (mount cityProps)
     [MapMove pan1 15, Elapse 800, Response 0 (stationsOk [stationA]),
      Response 0 (stationsOk [stationA_later])]) =
     [(''A_40.712800,-74.006000'', stationA_later)] \<and>
   stationA_later \<noteq> stationA \<and>
   keysOf (stationsCache s) \<subseteq> keysOf (stationsCache (step p s ev))"
proof -
  have "stationA_later \<noteq> stationA"
    by (simp add: stationA_later_def stationA_def)
  then show ?thesis
    by (simp add: first_answer second_answer keys_step)
qed

end
